theory Spec2Isabelle
  imports Main
begin

section \<open>Stack comparison tool: \<^verbatim>\<open>reccmp/tools/stackcmp.py\<close>\<close>

text \<open>
  A shallow embedding of the stack comparison tool. Python strings are HOL strings
  (one \<open>char\<close> per code point below 256; disassembly text is ASCII), Python's
  unbounded integers are \<open>int\<close>, a raised exception is the \<open>Inl\<close> side of a sum.
  Calls to \<^verbatim>\<open>logging\<close> have no effect on any value and are left out.
\<close>

datatype error = ValueError | AssertionError | StopIteration | KeyError | StructError

subsection \<open>Data model\<close>

record StackSymbol =
  name :: string
  data_type :: string

record StackRegisterOffset =
  register :: string
  offset :: int
  symbol :: "StackSymbol option"

text \<open>\<^verbatim>\<open>StackRegisterOffset.__eq__\<close>: register and offset, the symbol is ignored.\<close>

definition sro_eq :: "StackRegisterOffset \<Rightarrow> StackRegisterOffset \<Rightarrow> bool" where
  "sro_eq a b = (register a = register b \<and> offset a = offset b)"

text \<open>\<^verbatim>\<open>StackRegisterOffset.copy\<close>: a new object with the same three fields.\<close>

definition copy :: "StackRegisterOffset \<Rightarrow> StackRegisterOffset" where
  "copy self = \<lparr>register = register self, offset = offset self, symbol = symbol self\<rparr>"

record StackPair =
  orig :: StackRegisterOffset
  recomp :: StackRegisterOffset

text \<open>
  Equality of two \<^verbatim>\<open>StackPair\<close> tuples compares the components with
  \<^verbatim>\<open>StackRegisterOffset.__eq__\<close>.
\<close>

definition pair_eq :: "StackPair \<Rightarrow> StackPair \<Rightarrow> bool" where
  "pair_eq p q = (sro_eq (orig p) (orig q) \<and> sro_eq (recomp p) (recomp q))"

record Warnings =
  structural_mismatches_present :: bool
  error_map_not_bijective :: bool

subsection \<open>Hexadecimal text\<close>

definition hex_digits :: string where
  "hex_digits = ''0123456789abcdef''"

text \<open>The character class \<^verbatim>\<open>[0-9a-f]\<close> of the pattern.\<close>

definition is_hex_lower :: "char \<Rightarrow> bool" where
  "is_hex_lower c = (c \<in> set hex_digits)"

text \<open>
  The class \<^verbatim>\<open>\s\<close> of a \<^verbatim>\<open>str\<close> pattern: the characters for which
  \<^verbatim>\<open>str.isspace\<close> holds, here those below 256.
\<close>

definition is_space :: "char \<Rightarrow> bool" where
  "is_space c = (of_char c \<in> set [9, 10, 11, 12, 13, 28, 29, 30, 31, 32, 133, 160 :: nat])"

text \<open>The value of one digit in base 16, either case; \<open>None\<close> for any other character.\<close>

definition digit_value :: "char \<Rightarrow> int option" where
  "digit_value c =
     (let n = (of_char c :: nat) in
      if 48 \<le> n \<and> n \<le> 57 then Some (int n - 48)
      else if 97 \<le> n \<and> n \<le> 102 then Some (int n - 87)
      else if 65 \<le> n \<and> n \<le> 70 then Some (int n - 55)
      else None)"

fun digits_value :: "int \<Rightarrow> string \<Rightarrow> int option" where
  "digits_value acc [] = Some acc"
| "digits_value acc (c # cs) =
     (case digit_value c of
        None \<Rightarrow> None
      | Some d \<Rightarrow> digits_value (16 * acc + d) cs)"

text \<open>
  \<^verbatim>\<open>int(s, 16)\<close> for a text \<open>s\<close> without white space and underscores: an optional
  sign, an optional prefix \<^verbatim>\<open>0x\<close> or \<^verbatim>\<open>0X\<close>, then at least one digit.
  \<open>None\<close> is Python's \<^verbatim>\<open>ValueError\<close>.
\<close>

definition strip_0x :: "string \<Rightarrow> string" where
  "strip_0x s =
     (if take 2 s = ''0x'' \<or> take 2 s = ''0X'' then drop 2 s else s)"

definition unsigned16 :: "string \<Rightarrow> int option" where
  "unsigned16 s = (let ds = strip_0x s in if ds = [] then None else digits_value 0 ds)"

definition py_int16 :: "string \<Rightarrow> int option" where
  "py_int16 s =
     (if take 1 s = ''-'' then map_option uminus (unsigned16 (drop 1 s))
      else if take 1 s = ''+'' then unsigned16 (drop 1 s)
      else unsigned16 s)"

subsection \<open>The pattern \<^verbatim>\<open>STACK_ENTRY_REGEX\<close>\<close>

text \<open>
  \<^verbatim>\<open>(?P<register>e[sb]p)\s(?P<sign>[+-])\s(?P<offset>(0x)?[0-9a-f]+)(?![0-9a-f])\<close>

  The offset group: the optional \<^verbatim>\<open>0x\<close> is tried first, and the greedy run of
  digits is the longest one, the only length after which no digit follows. When no digit
  follows \<^verbatim>\<open>0x\<close>, the matcher backtracks to the empty prefix and the run of
  digits starts at the character itself.
\<close>

definition match_offset :: "string \<Rightarrow> string option" where
  "match_offset s =
     (let after_0x = (if take 2 s = ''0x'' then takeWhile is_hex_lower (drop 2 s) else [])
      in if after_0x \<noteq> [] then Some (''0x'' @ after_0x)
         else let run = takeWhile is_hex_lower s
              in if run \<noteq> [] then Some run else None)"

text \<open>
  An attempt to match the pattern at the start of \<open>s\<close>; the result is the groups
  \<^verbatim>\<open>register\<close>, \<^verbatim>\<open>sign\<close> and \<^verbatim>\<open>offset\<close>.
\<close>

definition match_here :: "string \<Rightarrow> (string \<times> string \<times> string) option" where
  "match_here s =
     (if length s \<ge> 6
         \<and> s ! 0 = CHR ''e'' \<and> (s ! 1 = CHR ''s'' \<or> s ! 1 = CHR ''b'') \<and> s ! 2 = CHR ''p''
         \<and> is_space (s ! 3)
         \<and> (s ! 4 = CHR ''+'' \<or> s ! 4 = CHR ''-'')
         \<and> is_space (s ! 5)
      then (case match_offset (drop 6 s) of
              None \<Rightarrow> None
            | Some off \<Rightarrow> Some (take 3 s, [s ! 4], off))
      else None)"

text \<open>\<^verbatim>\<open>STACK_ENTRY_REGEX.search\<close>: the leftmost position at which the pattern matches.\<close>

fun STACK_ENTRY_REGEX_search :: "string \<Rightarrow> (string \<times> string \<times> string) option" where
  "STACK_ENTRY_REGEX_search [] = match_here []"
| "STACK_ENTRY_REGEX_search (c # cs) =
     (case match_here (c # cs) of
        Some groups \<Rightarrow> Some groups
      | None \<Rightarrow> STACK_ENTRY_REGEX_search cs)"

subsection \<open>The offset extractor\<close>

definition extract_stack_offset_from_instruction ::
  "string \<Rightarrow> error + StackRegisterOffset option" where
  "extract_stack_offset_from_instruction instruction =
     (case STACK_ENTRY_REGEX_search instruction of
        None \<Rightarrow> Inr None
      | Some (reg, sign, off) \<Rightarrow>
          (case py_int16 (sign @ off) of
             None \<Rightarrow> Inl ValueError
           | Some v \<Rightarrow> Inr (Some \<lparr>register = reg, offset = v, symbol = None\<rparr>)))"

text \<open>\<^verbatim>\<open>sub in s\<close> for two strings.\<close>

fun str_in :: "string \<Rightarrow> string \<Rightarrow> bool" where
  "str_in sub [] = (sub = [])"
| "str_in sub (c # cs) = (take (length sub) (c # cs) = sub \<or> str_in sub cs)"

text \<open>
  \<^verbatim>\<open>any(x in instruction for x in ["ebp", "esp"])\<close>, the test of the branches that log
  a line mentioning a stack register without an offset.
\<close>

definition mentions_stack_register :: "string \<Rightarrow> bool" where
  "mentions_stack_register instruction =
     (str_in ''ebp'' instruction \<or> str_in ''esp'' instruction)"

subsection \<open>Sets of stack pairs\<close>

text \<open>
  \<^verbatim>\<open>StackPairs = set[StackPair]\<close>. A set is the list of its elements in the order in
  which the set is iterated, without two elements equal under \<open>pair_eq\<close>. Python fixes
  no iteration order (it follows the hashes of the register names, which change from run
  to run): here a new element goes to the end, and the statements about the reports are
  made for every order unless they name one. An element already present is kept.
\<close>

definition set_add :: "StackPair list \<Rightarrow> StackPair \<Rightarrow> StackPair list" where
  "set_add s x = (if list_ex (\<lambda>y. pair_eq y x) s then s else s @ [x])"

definition set_union :: "StackPair list \<Rightarrow> StackPair list \<Rightarrow> StackPair list" where
  "set_union s t = foldl set_add s t"

subsection \<open>The diff reconciler: \<^verbatim>\<open>analyze_diff\<close>\<close>

text \<open>
  \<^verbatim>\<open>MatchingOrMismatchingBlock\<close> is a dictionary with the optional keys
  \<^verbatim>\<open>"both"\<close> (lines of original address, instruction, recompiled address),
  \<^verbatim>\<open>"orig"\<close> and \<^verbatim>\<open>"recomp"\<close> (lines of address, instruction). A key that is
  absent is \<open>None\<close>.
\<close>

record MatchingOrMismatchingBlock =
  blk_both :: "(string \<times> string \<times> string) list option"
  blk_orig :: "(string \<times> string) list option"
  blk_recomp :: "(string \<times> string) list option"

text \<open>The loop over \<^verbatim>\<open>diff["both"]\<close>.\<close>

fun analyze_both ::
  "(string \<times> string \<times> string) list \<Rightarrow> StackPair list \<Rightarrow> error + StackPair list" where
  "analyze_both [] stack_pairs = Inr stack_pairs"
| "analyze_both (line # rest) stack_pairs =
     (let instruction = fst (snd line) in
      case extract_stack_offset_from_instruction instruction of
        Inl e \<Rightarrow> Inl e
      | Inr None \<Rightarrow> analyze_both rest stack_pairs
      | Inr (Some match) \<Rightarrow>
          analyze_both rest (set_add stack_pairs \<lparr>orig = match, recomp = copy match\<rparr>))"

text \<open>
  The loop over \<^verbatim>\<open>zip(orig, recomp)\<close>. A line of the original that yields a
  reference while the line of the recompilation yields none ends the function with the
  empty set.
\<close>

fun analyze_orig_recomp ::
  "((string \<times> string) \<times> (string \<times> string)) list \<Rightarrow> Warnings \<Rightarrow> StackPair list
     \<Rightarrow> error + (Warnings \<times> StackPair list)" where
  "analyze_orig_recomp [] warnings stack_pairs = Inr (warnings, stack_pairs)"
| "analyze_orig_recomp ((orig_line, recomp_line) # rest) warnings stack_pairs =
     (case extract_stack_offset_from_instruction (snd orig_line) of
        Inl e \<Rightarrow> Inl e
      | Inr None \<Rightarrow> analyze_orig_recomp rest warnings stack_pairs
      | Inr (Some orig_match) \<Rightarrow>
          (case extract_stack_offset_from_instruction (snd recomp_line) of
             Inl e \<Rightarrow> Inl e
           | Inr None \<Rightarrow> Inr (warnings\<lparr>structural_mismatches_present := True\<rparr>, [])
           | Inr (Some recomp_match) \<Rightarrow>
               analyze_orig_recomp rest warnings
                 (set_add stack_pairs \<lparr>orig = orig_match, recomp = recomp_match\<rparr>)))"

definition analyze_diff ::
  "MatchingOrMismatchingBlock \<Rightarrow> Warnings \<Rightarrow> error + (Warnings \<times> StackPair list)" where
  "analyze_diff diff warnings =
     (case blk_both diff of
        Some lines \<Rightarrow>
          (case analyze_both lines [] of
             Inl e \<Rightarrow> Inl e
           | Inr stack_pairs \<Rightarrow> Inr (warnings, stack_pairs))
      | None \<Rightarrow>
          (case blk_orig diff of
             None \<Rightarrow> Inl AssertionError
           | Some orig_lines \<Rightarrow>
               (case blk_recomp diff of
                  None \<Rightarrow> Inl AssertionError
                | Some recomp_lines \<Rightarrow>
                    if length orig_lines \<noteq> length recomp_lines
                    then Inr (warnings\<lparr>structural_mismatches_present := True\<rparr>, [])
                    else analyze_orig_recomp (zip orig_lines recomp_lines) warnings [])))"

subsection \<open>Rendering a reference: \<^verbatim>\<open>StackRegisterOffset.__str__\<close>\<close>

fun hex_of_nat :: "nat \<Rightarrow> string" where
  "hex_of_nat n =
     (if n < 16 then [hex_digits ! n] else hex_of_nat (n div 16) @ [hex_digits ! (n mod 16)])"

text \<open>
  The format \<^verbatim>\<open>#04x\<close>: the sign, the prefix \<^verbatim>\<open>0x\<close>, then the digits padded with
  zeros to a width of four characters in all.
\<close>

definition format_04x :: "int \<Rightarrow> string" where
  "format_04x n =
     (let digits = hex_of_nat (nat \<bar>n\<bar>);
          sgn = (if n < 0 then ''-'' else [])
      in sgn @ ''0x'' @ replicate (4 - (length sgn + 2 + length digits)) CHR ''0'' @ digits)"

definition str_sro :: "StackRegisterOffset \<Rightarrow> string" where
  "str_sro self =
     (let first_part =
            (if offset self > 0 then register self @ '' + '' @ format_04x (offset self)
             else register self @ '' - '' @ format_04x (- offset self));
          second_part = (case symbol self of Some s \<Rightarrow> ''  '' @ name s | None \<Rightarrow> [])
      in first_part @ second_part)"

subsection \<open>What is printed\<close>

text \<open>
  The report is the list of the lines printed. The four icons are constants of the
  presentation; a line of a view is its icon with the texts to the left and to the right
  of the colon. \<open>ListStr xs\<close> is the text Python gives for the list \<open>xs\<close> of strings
  (different lists have different texts).
\<close>

datatype icon = CHECK_ICON | SWAP_ICON | ERROR_ICON | UNCLEAR_ICON

datatype py_text = Str string | ListStr "string list"

datatype printed =
    Plain string
  | Match icon py_text py_text
  | NotSeen string
  | Legend

definition print_bijective_match :: "py_text \<Rightarrow> py_text \<Rightarrow> bool \<Rightarrow> printed" where
  "print_bijective_match left right exact =
     Match (if exact then CHECK_ICON else SWAP_ICON) left right"

definition print_non_bijective_match :: "py_text \<Rightarrow> py_text \<Rightarrow> printed" where
  "print_non_bijective_match left right = Match ERROR_ICON left right"

definition format_list_of_offsets :: "StackRegisterOffset list \<Rightarrow> py_text" where
  "format_list_of_offsets offsets = ListStr (map str_sro offsets)"

subsection \<open>The two views\<close>

text \<open>
  \<^verbatim>\<open>stack_symbols: dict[int, StackSymbol]\<close> is an association list; \<open>map_of\<close> is
  \<^verbatim>\<open>get\<close>, \<open>map fst\<close> is \<^verbatim>\<open>keys\<close>.
\<close>

fun dict_set :: "('k \<times> 'v) list \<Rightarrow> 'k \<Rightarrow> 'v \<Rightarrow> ('k \<times> 'v) list" where
  "dict_set [] k v = [(k, v)]"
| "dict_set ((k', v') # rest) k v =
     (if k' = k then (k, v) # rest else (k', v') # dict_set rest k v)"

definition heading_original :: string where
  "heading_original = CHR 0x0A # ''Ordered by original stack (left=orig, right=recomp):''"

definition heading_recomp :: string where
  "heading_recomp = CHR 0x0A # ''Ordered by recomp stack (left=orig, right=recomp):''"

text \<open>
  The body of the loop over \<^verbatim>\<open>sorted(all_orig_offsets)\<close>. \<^verbatim>\<open>next\<close> takes the
  first pair, in the order of iteration, whose original side has the offset, and raises
  \<^verbatim>\<open>StopIteration\<close> when there is none.
\<close>

fun by_original_loop ::
  "StackPair list \<Rightarrow> int list \<Rightarrow> Warnings \<Rightarrow> printed list
     \<Rightarrow> error + (Warnings \<times> printed list)" where
  "by_original_loop stack_pairs [] warnings out = Inr (warnings, out)"
| "by_original_loop stack_pairs (orig_offset # rest) warnings out =
     (case find (\<lambda>x. offset (orig x) = orig_offset) stack_pairs of
        None \<Rightarrow> Inl StopIteration
      | Some first \<Rightarrow>
          (let orig' = orig first;
               recomps = map recomp (filter (\<lambda>x. sro_eq (orig x) orig') stack_pairs)
           in case recomps of
                [recomp'] \<Rightarrow>
                  by_original_loop stack_pairs rest warnings
                    (out @ [print_bijective_match (Str (str_sro orig')) (Str (str_sro recomp'))
                              (sro_eq orig' recomp')])
              | _ \<Rightarrow>
                  by_original_loop stack_pairs rest
                    (warnings\<lparr>error_map_not_bijective := True\<rparr>)
                    (out @ [print_non_bijective_match (Str (str_sro orig'))
                              (format_list_of_offsets recomps)])))"

definition print_by_original_stack ::
  "StackPair list \<Rightarrow> Warnings \<Rightarrow> error + (Warnings \<times> printed list)" where
  "print_by_original_stack stack_pairs warnings =
     (let all_orig_offsets = remdups (map (\<lambda>x. offset (orig x)) stack_pairs)
      in by_original_loop stack_pairs (sort all_orig_offsets) warnings
           [Plain heading_original])"

text \<open>
  The body of the loop over \<^verbatim>\<open>sorted(all_recomp_offsets)\<close>. Here \<^verbatim>\<open>next\<close> has the
  default \<^verbatim>\<open>None\<close>; \<^verbatim>\<open>stack_symbols[recomp_offset]\<close> raises \<^verbatim>\<open>KeyError\<close>
  for a missing key.
\<close>

fun by_recomp_loop ::
  "StackPair list \<Rightarrow> (int \<times> StackSymbol) list \<Rightarrow> int list \<Rightarrow> Warnings \<Rightarrow> printed list
     \<Rightarrow> error + (Warnings \<times> printed list)" where
  "by_recomp_loop stack_pairs stack_symbols [] warnings out = Inr (warnings, out)"
| "by_recomp_loop stack_pairs stack_symbols (recomp_offset # rest) warnings out =
     (case find (\<lambda>x. offset (recomp x) = recomp_offset) stack_pairs of
        None \<Rightarrow>
          (case map_of stack_symbols recomp_offset of
             None \<Rightarrow> Inl KeyError
           | Some stack_symbol \<Rightarrow>
               (let stack_offset =
                      \<lparr>register = ''ebp'', offset = recomp_offset, symbol = Some stack_symbol\<rparr>
                in by_recomp_loop stack_pairs stack_symbols rest warnings
                     (out @ [NotSeen (str_sro stack_offset)])))
      | Some first \<Rightarrow>
          (let recomp' = recomp first;
               origs = map orig (filter (\<lambda>x. sro_eq (recomp x) recomp') stack_pairs)
           in case origs of
                [orig'] \<Rightarrow>
                  by_recomp_loop stack_pairs stack_symbols rest warnings
                    (out @ [print_bijective_match (Str (str_sro orig')) (Str (str_sro recomp'))
                              (sro_eq orig' recomp')])
              | _ \<Rightarrow>
                  by_recomp_loop stack_pairs stack_symbols rest
                    (warnings\<lparr>error_map_not_bijective := True\<rparr>)
                    (out @ [print_non_bijective_match (format_list_of_offsets origs)
                              (Str (str_sro recomp'))])))"

definition print_by_recomp_stack ::
  "StackPair list \<Rightarrow> (int \<times> StackSymbol) list \<Rightarrow> Warnings
     \<Rightarrow> error + (Warnings \<times> printed list)" where
  "print_by_recomp_stack stack_pairs stack_symbols warnings =
     (let all_recomp_offsets =
            remdups (map (\<lambda>x. offset (recomp x)) stack_pairs @ map fst stack_symbols)
      in by_recomp_loop stack_pairs stack_symbols (sort all_recomp_offsets) warnings
           [Plain heading_recomp])"

definition footer_error :: string where
  "footer_error = ''ERROR: The stack variables of original and recomp are not in a 1:1 correspondence, suggesting that the logic in the recomp is incorrect.''"

definition footer_warning :: string where
  "footer_warning = ''WARNING: Original and recomp have at least one structural discrepancy, so the comparison of stack variables might be incomplete. The structural mismatches above need to be checked manually.''"

definition print_footer :: "Warnings \<Rightarrow> printed list" where
  "print_footer warnings =
     Legend #
     (if error_map_not_bijective warnings then [Plain footer_error]
      else if structural_mismatches_present warnings then [Plain footer_warning]
      else [])"

subsection \<open>\<^verbatim>\<open>compare_function_stacks\<close>\<close>

text \<open>The two nested loops over the hunks of the diff and the blocks of each hunk.\<close>

fun collect_diffs ::
  "MatchingOrMismatchingBlock list \<Rightarrow> Warnings \<Rightarrow> StackPair list
     \<Rightarrow> error + (Warnings \<times> StackPair list)" where
  "collect_diffs [] warnings stack_pairs = Inr (warnings, stack_pairs)"
| "collect_diffs (diff # rest) warnings stack_pairs =
     (case analyze_diff diff warnings of
        Inl e \<Rightarrow> Inl e
      | Inr (warnings', found) \<Rightarrow>
          collect_diffs rest warnings' (set_union stack_pairs found))"

fun collect_blocks ::
  "(string \<times> MatchingOrMismatchingBlock list) list \<Rightarrow> Warnings \<Rightarrow> StackPair list
     \<Rightarrow> error + (Warnings \<times> StackPair list)" where
  "collect_blocks [] warnings stack_pairs = Inr (warnings, stack_pairs)"
| "collect_blocks (block # rest) warnings stack_pairs =
     (case collect_diffs (snd block) warnings stack_pairs of
        Inl e \<Rightarrow> Inl e
      | Inr (warnings', stack_pairs') \<Rightarrow> collect_blocks rest warnings' stack_pairs')"

text \<open>
  An entry of \<^verbatim>\<open>fn_symbol.stack_symbols\<close>, with the four fields the function reads
  (\<^verbatim>\<open>name\<close> and \<^verbatim>\<open>data_type\<close> carry a prefix here, \<open>StackSymbol\<close> has
  fields of these names).
\<close>

record StackOrRegisterSymbol =
  symbol_type :: string
  location :: string
  entry_name :: string
  entry_data_type :: string

definition is_ascii_space :: "char \<Rightarrow> bool" where
  "is_ascii_space c = (of_char c \<in> set [9, 10, 11, 12, 13, 32 :: nat])"

text \<open>
  \<^verbatim>\<open>bytes.fromhex\<close>: white space is skipped before each byte, a byte is two digits.
  The first argument is the first digit of a byte whose second digit is still to come.
  \<open>None\<close> is \<^verbatim>\<open>ValueError\<close>.
\<close>

fun bytes_fromhex :: "int option \<Rightarrow> string \<Rightarrow> int list option" where
  "bytes_fromhex None [] = Some []"
| "bytes_fromhex (Some hi) [] = None"
| "bytes_fromhex None (c # cs) =
     (if is_ascii_space c then bytes_fromhex None cs
      else case digit_value c of
             None \<Rightarrow> None
           | Some hi \<Rightarrow> bytes_fromhex (Some hi) cs)"
| "bytes_fromhex (Some hi) (c # cs) =
     (case digit_value c of
        None \<Rightarrow> None
      | Some lo \<Rightarrow> map_option ((#) (16 * hi + lo)) (bytes_fromhex None cs))"

text \<open>
  \<^verbatim>\<open>struct.unpack(">l", b)[0]\<close>: four bytes, the most significant first, read as a
  signed integer of 32 bits. Any other length raises \<^verbatim>\<open>struct.error\<close>.
\<close>

definition unpack_be_long :: "int list \<Rightarrow> error + int" where
  "unpack_be_long b =
     (case b of
        [b0, b1, b2, b3] \<Rightarrow>
          (let u = ((b0 * 256 + b1) * 256 + b2) * 256 + b3
           in Inr (if u \<ge> 2 ^ 31 then u - 2 ^ 32 else u))
      | _ \<Rightarrow> Inl StructError)"

text \<open>The loop that fills \<^verbatim>\<open>stack_symbols\<close>; \<^verbatim>\<open>location[1:-1]\<close> drops the first
  and the last character.\<close>

fun collect_stack_symbols ::
  "StackOrRegisterSymbol list \<Rightarrow> (int \<times> StackSymbol) list
     \<Rightarrow> error + (int \<times> StackSymbol) list" where
  "collect_stack_symbols [] stack_symbols = Inr stack_symbols"
| "collect_stack_symbols (entry # rest) stack_symbols =
     (if symbol_type entry = ''S_BPREL32'' then
        (case bytes_fromhex None (butlast (tl (location entry))) of
           None \<Rightarrow> Inl ValueError
         | Some hex_bytes \<Rightarrow>
             (case unpack_be_long hex_bytes of
                Inl e \<Rightarrow> Inl e
              | Inr stack_offset \<Rightarrow>
                  collect_stack_symbols rest
                    (dict_set stack_symbols stack_offset
                       \<lparr>name = entry_name entry, data_type = entry_data_type entry\<rparr>)))
      else collect_stack_symbols rest stack_symbols)"

text \<open>
  The loop that attaches the symbols. Every recomp side is an object of its own (a copy,
  or the result of its own call of the extractor), so the assignment to
  \<^verbatim>\<open>recomp.symbol\<close> changes the recomp side of that pair and nothing else.
\<close>

definition attach_symbol :: "(int \<times> StackSymbol) list \<Rightarrow> StackPair \<Rightarrow> StackPair" where
  "attach_symbol stack_symbols pair =
     (if register (recomp pair) = ''ebp''
      then pair\<lparr>recomp := (recomp pair)\<lparr>symbol := map_of stack_symbols (offset (recomp pair))\<rparr>\<rparr>
      else pair)"

definition attach_symbols ::
  "(int \<times> StackSymbol) list \<Rightarrow> StackPair list \<Rightarrow> StackPair list" where
  "attach_symbols stack_symbols stack_pairs = map (attach_symbol stack_symbols) stack_pairs"

text \<open>The classifier and reporter: the two views and the footer, in this order.\<close>

definition report ::
  "StackPair list \<Rightarrow> (int \<times> StackSymbol) list \<Rightarrow> Warnings
     \<Rightarrow> error + (Warnings \<times> printed list)" where
  "report stack_pairs stack_symbols warnings =
     (case print_by_original_stack stack_pairs warnings of
        Inl e \<Rightarrow> Inl e
      | Inr (warnings1, out1) \<Rightarrow>
          (case print_by_recomp_stack stack_pairs stack_symbols warnings1 of
             Inl e \<Rightarrow> Inl e
           | Inr (warnings2, out2) \<Rightarrow>
               Inr (warnings2, out1 @ out2 @ print_footer warnings2)))"

text \<open>
  \<^verbatim>\<open>compare_function_stacks\<close> up to its three calls of the print functions: the
  values of \<^verbatim>\<open>warnings\<close>, \<^verbatim>\<open>stack_pairs\<close> and \<^verbatim>\<open>stack_symbols\<close> that
  these calls receive.
\<close>

definition reconcile ::
  "(string \<times> MatchingOrMismatchingBlock list) list \<Rightarrow> StackOrRegisterSymbol list
     \<Rightarrow> error + (Warnings \<times> StackPair list \<times> (int \<times> StackSymbol) list)" where
  "reconcile udiff fn_stack_symbols =
     (let warnings = \<lparr>structural_mismatches_present = False, error_map_not_bijective = False\<rparr>
      in case collect_blocks udiff warnings [] of
           Inl e \<Rightarrow> Inl e
         | Inr (warnings', stack_pairs) \<Rightarrow>
             (case collect_stack_symbols fn_stack_symbols [] of
                Inl e \<Rightarrow> Inl e
              | Inr stack_symbols \<Rightarrow>
                  Inr (warnings', attach_symbols stack_symbols stack_pairs, stack_symbols)))"

definition compare_function_stacks ::
  "(string \<times> MatchingOrMismatchingBlock list) list \<Rightarrow> StackOrRegisterSymbol list
     \<Rightarrow> error + (Warnings \<times> printed list)" where
  "compare_function_stacks udiff fn_stack_symbols =
     (case reconcile udiff fn_stack_symbols of
        Inl e \<Rightarrow> Inl e
      | Inr (warnings, stack_pairs, stack_symbols) \<Rightarrow>
          report stack_pairs stack_symbols warnings)"

subsection \<open>Notions used in the statements\<close>

text \<open>A result whose warnings have the structural mismatch flag set in addition.\<close>

definition with_structural_mismatch :: "error + (Warnings \<times> 'a) \<Rightarrow> error + (Warnings \<times> 'a)" where
  "with_structural_mismatch r =
     (case r of
        Inl e \<Rightarrow> Inl e
      | Inr (warnings, x) \<Rightarrow> Inr (warnings\<lparr>structural_mismatches_present := True\<rparr>, x))"



text \<open>The register and offset of a reference, and of the two sides of a pair.\<close>

definition slot :: "StackRegisterOffset \<Rightarrow> string \<times> int" where
  "slot r = (register r, offset r)"

definition slots :: "StackPair \<Rightarrow> (string \<times> int) \<times> (string \<times> int)" where
  "slots p = (slot (orig p), slot (recomp p))"

section \<open>Properties\<close>

subsection \<open>The offset extractor\<close>

lemma match_here_register:
  assumes "match_here s = Some (reg, sign, off)"
  shows "reg = take 3 s \<and> (reg = ''ebp'' \<or> reg = ''esp'')"
proof -
  from assms have len: "length s \<ge> 6" and e: "s ! 0 = CHR ''e''"
    and sb: "s ! 1 = CHR ''s'' \<or> s ! 1 = CHR ''b''" and p: "s ! 2 = CHR ''p''"
    and reg: "reg = take 3 s"
    by (auto simp: match_here_def split: if_splits option.splits)
  from len obtain a b c rest where s: "s = a # b # c # rest"
    by (cases s; cases "tl s"; cases "tl (tl s)") auto
  with e sb p reg show ?thesis by auto
qed

lemma search_mentions:
  "STACK_ENTRY_REGEX_search s = Some g \<Longrightarrow> mentions_stack_register s"
proof (induction s)
  case Nil
  then show ?case by (simp add: match_here_def)
next
  case (Cons c cs)
  show ?case
  proof (cases "match_here (c # cs)")
    case None
    with Cons have "mentions_stack_register cs" by simp
    then show ?thesis by (auto simp: mentions_stack_register_def)
  next
    case (Some h)
    obtain reg sign off where "h = (reg, sign, off)" by (cases h) auto
    with Some match_here_register have "take 3 (c # cs) = ''ebp'' \<or> take 3 (c # cs) = ''esp''"
      by metis
    then have "take (length ''ebp'') (c # cs) = ''ebp'' \<or> take (length ''esp'') (c # cs) = ''esp''"
      by (simp add: numeral_3_eq_3)
    then show ?thesis unfolding mentions_stack_register_def str_in.simps by blast
  qed
qed

lemma extract_no_mention:
  "\<not> mentions_stack_register line \<Longrightarrow> extract_stack_offset_from_instruction line = Inr None"
  using search_mentions [of line]
  by (cases "STACK_ENTRY_REGEX_search line") (auto simp: extract_stack_offset_from_instruction_def)

lemma digit_value_hex_lower: "is_hex_lower c \<Longrightarrow> \<exists>d. digit_value c = Some d"
  by (auto simp: is_hex_lower_def hex_digits_def digit_value_def)

lemma digits_value_hex_lower:
  "\<forall>c \<in> set ds. is_hex_lower c \<Longrightarrow> \<exists>v. digits_value acc ds = Some v"
proof (induction ds arbitrary: acc)
  case Nil
  then show ?case by simp
next
  case (Cons c cs)
  then obtain d where "digit_value c = Some d" using digit_value_hex_lower by force
  with Cons show ?case by simp
qed

lemma x_not_hex: "\<not> is_hex_lower CHR ''x''" "\<not> is_hex_lower CHR ''X''"
  by (simp_all add: is_hex_lower_def hex_digits_def)

lemma strip_0x_run:
  assumes "\<forall>c \<in> set ds. is_hex_lower c"
  shows "strip_0x ds = ds"
proof (cases ds)
  case Nil
  then show ?thesis by (simp add: strip_0x_def)
next
  case (Cons a as)
  show ?thesis
  proof (cases as)
    case Nil
    with Cons show ?thesis by (simp add: strip_0x_def)
  next
    case (Cons b bs)
    with \<open>ds = a # as\<close> assms have "is_hex_lower b" by simp
    with x_not_hex have "b \<noteq> CHR ''x''" "b \<noteq> CHR ''X''" by auto
    with Cons \<open>ds = a # as\<close> show ?thesis by (simp add: strip_0x_def)
  qed
qed

lemma unsigned16_run:
  assumes "\<forall>c \<in> set ds. is_hex_lower c" and "ds \<noteq> []"
  shows "\<exists>v. unsigned16 ds = Some v" "\<exists>v. unsigned16 (''0x'' @ ds) = Some v"
proof -
  from assms show "\<exists>v. unsigned16 ds = Some v"
    by (simp add: unsigned16_def strip_0x_run digits_value_hex_lower)
  have "strip_0x (''0x'' @ ds) = ds" by (simp add: strip_0x_def)
  with assms show "\<exists>v. unsigned16 (''0x'' @ ds) = Some v"
    by (simp add: unsigned16_def digits_value_hex_lower)
qed

lemma match_offset_parses:
  assumes "match_offset s = Some off"
  shows "\<exists>v. unsigned16 off = Some v"
proof -
  have hex: "\<forall>c \<in> set (takeWhile is_hex_lower t). is_hex_lower c" for t
    by (auto dest: set_takeWhileD)
  from assms consider
      (prefixed) "off = ''0x'' @ takeWhile is_hex_lower (drop 2 s)"
        "takeWhile is_hex_lower (drop 2 s) \<noteq> []"
    | (plain) "off = takeWhile is_hex_lower s" "takeWhile is_hex_lower s \<noteq> []"
    by (auto simp: match_offset_def Let_def split: if_splits)
  then show ?thesis
  proof cases
    case prefixed
    then show ?thesis using unsigned16_run(2) [OF hex] by simp
  next
    case plain
    then show ?thesis using unsigned16_run(1) [OF hex] by simp
  qed
qed

lemma match_here_parses:
  assumes "match_here s = Some (reg, sign, off)"
  shows "\<exists>v. py_int16 (sign @ off) = Some v"
proof -
  from assms obtain sg where sign: "sign = [sg]" "sg = CHR ''+'' \<or> sg = CHR ''-''"
    and off: "match_offset (drop 6 s) = Some off"
    by (auto simp: match_here_def split: if_splits option.splits)
  from match_offset_parses [OF off] obtain v where "unsigned16 off = Some v" by blast
  with sign show ?thesis by (auto simp: py_int16_def)
qed

lemma search_parses:
  "STACK_ENTRY_REGEX_search s = Some (reg, sign, off) \<Longrightarrow> \<exists>v. py_int16 (sign @ off) = Some v"
proof (induction s)
  case Nil
  then show ?case by (simp add: match_here_parses)
next
  case (Cons c cs)
  then show ?case
    by (cases "match_here (c # cs)") (auto simp: match_here_parses)
qed

lemma extract_never_raises: "\<exists>r. extract_stack_offset_from_instruction line = Inr r"
proof (cases "STACK_ENTRY_REGEX_search line")
  case None
  then show ?thesis by (simp add: extract_stack_offset_from_instruction_def)
next
  case (Some g)
  obtain reg sign off where g: "g = (reg, sign, off)" by (cases g) auto
  with Some search_parses obtain v where "py_int16 (sign @ off) = Some v" by blast
  with Some g show ?thesis by (simp add: extract_stack_offset_from_instruction_def)
qed

lemma extract_symbol_None:
  "extract_stack_offset_from_instruction line = Inr (Some m) \<Longrightarrow> symbol m = None"
  by (auto simp: extract_stack_offset_from_instruction_def split: option.splits prod.splits)

text \<open>
  Claim C8. The extractor returns the register \<open>esp\<close> with offset \<open>+16\<close> for the text
  \<^verbatim>\<open>esp + 0x10\<close> and the register \<open>ebp\<close> with offset \<open>-4\<close> for \<^verbatim>\<open>ebp - 0x4\<close>;
  for \<^verbatim>\<open>ebp - 0x14abc\<close> it reads the whole literal (\<open>0x14abc = 84668\<close>), not a
  shorter prefix of it; the same holds for these texts inside an instruction; and for
  every line in which neither \<^verbatim>\<open>ebp\<close> nor \<^verbatim>\<open>esp\<close> occurs it returns nothing.
\<close>

theorem extractor_examples:
  "extract_stack_offset_from_instruction ''esp + 0x10''
     = Inr (Some \<lparr>register = ''esp'', offset = 16, symbol = None\<rparr>)
   \<and> extract_stack_offset_from_instruction ''ebp - 0x4''
     = Inr (Some \<lparr>register = ''ebp'', offset = - 4, symbol = None\<rparr>)
   \<and> extract_stack_offset_from_instruction ''ebp - 0x14abc''
     = Inr (Some \<lparr>register = ''ebp'', offset = - 84668, symbol = None\<rparr>)
   \<and> extract_stack_offset_from_instruction ''mov eax, dword ptr [esp + 0x10]''
     = Inr (Some \<lparr>register = ''esp'', offset = 16, symbol = None\<rparr>)
   \<and> extract_stack_offset_from_instruction ''lea ecx, [ebp - 0x4]''
     = Inr (Some \<lparr>register = ''ebp'', offset = - 4, symbol = None\<rparr>)
   \<and> extract_stack_offset_from_instruction ''mov dword ptr [ebp - 0x14abc], edx''
     = Inr (Some \<lparr>register = ''ebp'', offset = - 84668, symbol = None\<rparr>)
   \<and> (\<forall>line. \<not> mentions_stack_register line
         \<longrightarrow> extract_stack_offset_from_instruction line = Inr None)"
proof -
  have d: "extract_stack_offset_from_instruction ''mov eax, dword ptr [esp + 0x10]''
     = Inr (Some \<lparr>register = ''esp'', offset = 16, symbol = None\<rparr>)"
    by code_simp
  have e: "extract_stack_offset_from_instruction ''lea ecx, [ebp - 0x4]''
     = Inr (Some \<lparr>register = ''ebp'', offset = - 4, symbol = None\<rparr>)"
    by code_simp
  have f: "extract_stack_offset_from_instruction ''mov dword ptr [ebp - 0x14abc], edx''
     = Inr (Some \<lparr>register = ''ebp'', offset = - 84668, symbol = None\<rparr>)"
    by code_simp
  have a: "extract_stack_offset_from_instruction ''esp + 0x10''
     = Inr (Some \<lparr>register = ''esp'', offset = 16, symbol = None\<rparr>)"
    by code_simp
  have b: "extract_stack_offset_from_instruction ''ebp - 0x4''
     = Inr (Some \<lparr>register = ''ebp'', offset = - 4, symbol = None\<rparr>)"
    by code_simp
  have c: "extract_stack_offset_from_instruction ''ebp - 0x14abc''
     = Inr (Some \<lparr>register = ''ebp'', offset = - 84668, symbol = None\<rparr>)"
    by code_simp
  from a b c d e f extract_no_mention show ?thesis by blast
qed

theorem extractor_examples_witness:
  "\<not> mentions_stack_register ''mov eax, ebx''
   \<and> extract_stack_offset_from_instruction ''mov eax, ebx'' = Inr None"
proof -
  have h: "\<not> mentions_stack_register ''mov eax, ebx''" by code_simp
  with extractor_examples show ?thesis by blast
qed

subsection \<open>The diff reconciler\<close>

lemma copy_id: "copy m = m"
  by (simp add: copy_def)

lemma set_set_add: "set (set_add s x) \<subseteq> insert x (set s)"
  by (auto simp: set_add_def)

lemma set_add_keeps: "set s \<subseteq> set (set_add s x)"
  by (auto simp: set_add_def)

lemma set_set_union: "set (set_union s t) \<subseteq> set s \<union> set t"
  unfolding set_union_def
proof (induction t arbitrary: s)
  case Nil
  then show ?case by simp
next
  case (Cons x xs)
  have "set (foldl set_add (set_add s x) xs) \<subseteq> set (set_add s x) \<union> set xs"
    by (rule Cons.IH)
  with set_set_add [of s x] show ?case by auto
qed


lemma analyze_both_total: "\<exists>r. analyze_both lines sp = Inr r"
proof (induction lines arbitrary: sp)
  case Nil
  then show ?case by simp
next
  case (Cons line rest)
  obtain r where "extract_stack_offset_from_instruction (fst (snd line)) = Inr r"
    using extract_never_raises by blast
  with Cons show ?case by (cases r) auto
qed

lemma analyze_both_pairs:
  "analyze_both lines sp = Inr sp' \<Longrightarrow> p \<in> set sp' \<Longrightarrow>
     p \<in> set sp \<or>
     (\<exists>line \<in> set lines.
        extract_stack_offset_from_instruction (fst (snd line)) = Inr (Some (orig p))
        \<and> recomp p = orig p)"
proof (induction lines arbitrary: sp)
  case Nil
  then show ?case by simp
next
  case (Cons line rest)
  obtain r where r: "extract_stack_offset_from_instruction (fst (snd line)) = Inr r"
    using extract_never_raises by blast
  show ?case
  proof (cases r)
    case None
    with r Cons.prems have "analyze_both rest sp = Inr sp'" by simp
    from Cons.IH [OF this Cons.prems(2)] show ?thesis by auto
  next
    case (Some m)
    with r Cons.prems
    have "analyze_both rest (set_add sp \<lparr>orig = m, recomp = copy m\<rparr>) = Inr sp'" by simp
    from Cons.IH [OF this Cons.prems(2)]
    consider "p \<in> set (set_add sp \<lparr>orig = m, recomp = copy m\<rparr>)"
      | "\<exists>line \<in> set rest.
          extract_stack_offset_from_instruction (fst (snd line)) = Inr (Some (orig p))
          \<and> recomp p = orig p"
      by blast
    then show ?thesis
    proof cases
      case 1
      with set_set_add have "p = \<lparr>orig = m, recomp = copy m\<rparr> \<or> p \<in> set sp" by blast
      with r Some show ?thesis by (auto simp: copy_id)
    next
      case 2
      then show ?thesis by auto
    qed
  qed
qed

text \<open>
  Claim C2. Every pair that \<^verbatim>\<open>analyze_diff\<close> produces from a block with the key
  \<^verbatim>\<open>"both"\<close> has a recomp side equal to its original side: the reference is
  extracted from the one instruction text of a line and paired with a copy of itself,
  so such a block never contributes a pair with differing offsets. The warnings are
  returned unchanged.
\<close>

theorem aligned_pairs_same_reference:
  assumes "blk_both diff = Some lines"
  shows "\<exists>stack_pairs.
           analyze_diff diff warnings = Inr (warnings, stack_pairs)
           \<and> (\<forall>p \<in> set stack_pairs.
                 recomp p = orig p
                 \<and> (\<exists>line \<in> set lines.
                      extract_stack_offset_from_instruction (fst (snd line))
                        = Inr (Some (orig p))))"
proof -
  obtain sp where sp: "analyze_both lines [] = Inr sp"
    using analyze_both_total by blast
  with assms have "analyze_diff diff warnings = Inr (warnings, sp)"
    by (simp add: analyze_diff_def)
  moreover have "recomp p = orig p
      \<and> (\<exists>line \<in> set lines.
            extract_stack_offset_from_instruction (fst (snd line)) = Inr (Some (orig p)))"
    if "p \<in> set sp" for p
    using analyze_both_pairs [OF sp that] by auto
  ultimately show ?thesis by blast
qed



lemma with_structural_mismatch_simps [simp]:
  "with_structural_mismatch (Inl e) = Inl e"
  "with_structural_mismatch (Inr (w, x)) = Inr (w\<lparr>structural_mismatches_present := True\<rparr>, x)"
  by (simp_all add: with_structural_mismatch_def)















theorem aligned_pairs_same_reference_witness:
  "blk_both \<lparr>blk_both = Some [(''0x1000'', ''mov eax, dword ptr [ebp - 8]'', ''0x2000''),
                               (''0x1003'', ''push eax'', ''0x2003'')],
             blk_orig = None, blk_recomp = None\<rparr>
     = Some [(''0x1000'', ''mov eax, dword ptr [ebp - 8]'', ''0x2000''),
             (''0x1003'', ''push eax'', ''0x2003'')]
   \<and> analyze_diff \<lparr>blk_both = Some [(''0x1000'', ''mov eax, dword ptr [ebp - 8]'', ''0x2000''),
                                      (''0x1003'', ''push eax'', ''0x2003'')],
                    blk_orig = None, blk_recomp = None\<rparr>
        \<lparr>structural_mismatches_present = False, error_map_not_bijective = False\<rparr>
     = Inr (\<lparr>structural_mismatches_present = False, error_map_not_bijective = False\<rparr>,
            [\<lparr>orig = \<lparr>register = ''ebp'', offset = - 8, symbol = None\<rparr>,
              recomp = \<lparr>register = ''ebp'', offset = - 8, symbol = None\<rparr>\<rparr>])
   \<and> recomp \<lparr>orig = \<lparr>register = ''ebp'', offset = - 8, symbol = None\<rparr>,
              recomp = \<lparr>register = ''ebp'', offset = - 8, symbol = None\<rparr>\<rparr>
     = orig \<lparr>orig = \<lparr>register = ''ebp'', offset = - 8, symbol = None\<rparr>,
             recomp = \<lparr>register = ''ebp'', offset = - 8, symbol = None\<rparr>\<rparr>"
  (is "?hyp \<and> ?run \<and> ?same")
proof -
  have hyp: ?hyp by simp
  have run: ?run by code_simp
  from aligned_pairs_same_reference [OF hyp,
      of "\<lparr>structural_mismatches_present = False, error_map_not_bijective = False\<rparr>"]
  obtain stack_pairs where
    "analyze_diff \<lparr>blk_both = Some [(''0x1000'', ''mov eax, dword ptr [ebp - 8]'', ''0x2000''),
                                      (''0x1003'', ''push eax'', ''0x2003'')],
                    blk_orig = None, blk_recomp = None\<rparr>
        \<lparr>structural_mismatches_present = False, error_map_not_bijective = False\<rparr>
      = Inr (\<lparr>structural_mismatches_present = False, error_map_not_bijective = False\<rparr>,
             stack_pairs)"
    and same: "\<forall>p \<in> set stack_pairs. recomp p = orig p" by blast
  with run have "stack_pairs = [\<lparr>orig = \<lparr>register = ''ebp'', offset = - 8, symbol = None\<rparr>,
              recomp = \<lparr>register = ''ebp'', offset = - 8, symbol = None\<rparr>\<rparr>]" by simp
  with same have ?same by simp
  with hyp run show ?thesis by blast
qed

subsection \<open>The symbol enricher\<close>

lemma analyze_orig_recomp_pairs:
  "analyze_orig_recomp zs w sp = Inr (w', sp') \<Longrightarrow> p \<in> set sp' \<Longrightarrow>
     p \<in> set sp \<or>
     (\<exists>(orig_line, recomp_line) \<in> set zs.
        extract_stack_offset_from_instruction (snd orig_line) = Inr (Some (orig p))
        \<and> extract_stack_offset_from_instruction (snd recomp_line) = Inr (Some (recomp p)))"
proof (induction zs arbitrary: sp)
  case Nil
  then show ?case by simp
next
  case (Cons z zs)
  obtain ol rl where z: "z = (ol, rl)" by (cases z) auto
  obtain r1 where r1: "extract_stack_offset_from_instruction (snd ol) = Inr r1"
    using extract_never_raises by blast
  obtain r2 where r2: "extract_stack_offset_from_instruction (snd rl) = Inr r2"
    using extract_never_raises by blast
  show ?case
  proof (cases r1)
    case None
    with r1 z Cons.prems have "analyze_orig_recomp zs w sp = Inr (w', sp')" by simp
    from Cons.IH [OF this Cons.prems(2)] show ?thesis by auto
  next
    case (Some m1)
    show ?thesis
    proof (cases r2)
      case None
      with Some r1 r2 z Cons.prems show ?thesis by simp
    next
      case (Some m2)
      with \<open>r1 = Some m1\<close> r1 r2 z Cons.prems
      have "analyze_orig_recomp zs w (set_add sp \<lparr>orig = m1, recomp = m2\<rparr>) = Inr (w', sp')"
        by simp
      from Cons.IH [OF this Cons.prems(2)]
      consider "p \<in> set (set_add sp \<lparr>orig = m1, recomp = m2\<rparr>)"
        | "\<exists>(orig_line, recomp_line) \<in> set zs.
            extract_stack_offset_from_instruction (snd orig_line) = Inr (Some (orig p))
            \<and> extract_stack_offset_from_instruction (snd recomp_line) = Inr (Some (recomp p))"
        by blast
      then show ?thesis
      proof cases
        case 1
        with set_set_add have "p = \<lparr>orig = m1, recomp = m2\<rparr> \<or> p \<in> set sp" by blast
        with r1 r2 z Some \<open>r1 = Some m1\<close> show ?thesis by auto
      next
        case 2
        then show ?thesis by auto
      qed
    qed
  qed
qed

text \<open>The pairs that come out of the analysis carry no symbol.\<close>

lemma analyze_diff_unannotated:
  assumes "analyze_diff d w = Inr (w', sp)" and "p \<in> set sp"
  shows "symbol (orig p) = None \<and> symbol (recomp p) = None"
proof (cases "blk_both d")
  case (Some lines)
  with assms(1) have "analyze_both lines [] = Inr sp"
    by (auto simp: analyze_diff_def split: sum.splits)
  from analyze_both_pairs [OF this assms(2)] show ?thesis
    by (auto dest: extract_symbol_None)
next
  case None
  with assms(1) obtain ol rl where "blk_orig d = Some ol" "blk_recomp d = Some rl"
    by (auto simp: analyze_diff_def split: option.splits)
  with None assms have "analyze_orig_recomp (zip ol rl) w [] = Inr (w', sp)"
    by (auto simp: analyze_diff_def split: if_splits)
  from analyze_orig_recomp_pairs [OF this assms(2)] show ?thesis
    by (auto dest: extract_symbol_None)
qed

lemma collect_diffs_unannotated:
  assumes "collect_diffs ds w sp = Inr (w', sp')"
    and "\<forall>p \<in> set sp. symbol (orig p) = None \<and> symbol (recomp p) = None"
  shows "\<forall>p \<in> set sp'. symbol (orig p) = None \<and> symbol (recomp p) = None"
  using assms
proof (induction ds arbitrary: w sp)
  case Nil
  then show ?case by simp
next
  case (Cons d ds)
  from Cons.prems(1) obtain w1 found where d: "analyze_diff d w = Inr (w1, found)"
    and rest: "collect_diffs ds w1 (set_union sp found) = Inr (w', sp')"
    by (auto split: sum.splits)
  have "\<forall>p \<in> set (set_union sp found). symbol (orig p) = None \<and> symbol (recomp p) = None"
    using set_set_union [of sp found] Cons.prems(2) analyze_diff_unannotated [OF d] by blast
  from Cons.IH [OF rest this] show ?case .
qed

lemma collect_blocks_unannotated:
  assumes "collect_blocks bs w sp = Inr (w', sp')"
    and "\<forall>p \<in> set sp. symbol (orig p) = None \<and> symbol (recomp p) = None"
  shows "\<forall>p \<in> set sp'. symbol (orig p) = None \<and> symbol (recomp p) = None"
  using assms
proof (induction bs arbitrary: w sp)
  case Nil
  then show ?case by simp
next
  case (Cons b bs)
  from Cons.prems(1) obtain w1 sp1 where b: "collect_diffs (snd b) w sp = Inr (w1, sp1)"
    and rest: "collect_blocks bs w1 sp1 = Inr (w', sp')"
    by (auto split: sum.splits)
  from Cons.IH [OF rest collect_diffs_unannotated [OF b Cons.prems(2)]] show ?case .
qed

lemma attach_symbol_slots: "slots (attach_symbol ss p) = slots p"
  by (simp add: attach_symbol_def slots_def slot_def)

lemma attach_symbol_orig: "orig (attach_symbol ss p) = orig p"
  by (simp add: attach_symbol_def)

lemma reconcile_esp_unannotated:
  assumes "reconcile udiff entries = Inr (w, ps, ss)" and "p \<in> set ps"
    and "register (recomp p) \<noteq> ''ebp''"
  shows "symbol (recomp p) = None"
proof -
  from assms(1) obtain w0 sp where
    coll: "collect_blocks udiff w0 [] = Inr (w, sp)" and ps: "ps = attach_symbols ss sp"
    by (auto simp: reconcile_def Let_def split: sum.splits)
  from assms(2) ps obtain q where q: "q \<in> set sp" "p = attach_symbol ss q"
    by (auto simp: attach_symbols_def)
  from collect_blocks_unannotated [OF coll] q(1) have none: "symbol (recomp q) = None" by simp
  from q(2) assms(3) have "p = q" by (auto simp: attach_symbol_def split: if_splits)
  with none show ?thesis by simp
qed

text \<open>
  Claim C7. Attaching the symbols neither adds nor removes a pair: the list of the
  registers and offsets of the two sides is the same before and after, and the original
  sides are untouched. A pair whose recomp side is not relative to \<^verbatim>\<open>ebp\<close> is left as
  it is; for a recomp side relative to \<^verbatim>\<open>ebp\<close> only the symbol is set, to the entry of
  the table at that offset. In the pairs that reach the report, a recomp side relative
  to \<^verbatim>\<open>esp\<close> carries no symbol.
\<close>

theorem enrichment_keeps_correspondences:
  "map slots (attach_symbols stack_symbols stack_pairs) = map slots stack_pairs
   \<and> map orig (attach_symbols stack_symbols stack_pairs) = map orig stack_pairs
   \<and> (\<forall>p \<in> set stack_pairs.
         register (recomp p) \<noteq> ''ebp'' \<longrightarrow> attach_symbol stack_symbols p = p)
   \<and> (\<forall>p \<in> set stack_pairs.
         register (recomp p) = ''ebp'' \<longrightarrow>
           attach_symbol stack_symbols p
             = p\<lparr>recomp := (recomp p)\<lparr>symbol := map_of stack_symbols (offset (recomp p))\<rparr>\<rparr>)
   \<and> (\<forall>udiff entries w ps ss.
         reconcile udiff entries = Inr (w, ps, ss) \<longrightarrow>
           (\<forall>p \<in> set ps. register (recomp p) = ''esp'' \<longrightarrow> symbol (recomp p) = None))"
proof -
  have a: "map slots (attach_symbols stack_symbols stack_pairs) = map slots stack_pairs"
    by (simp add: attach_symbols_def attach_symbol_slots)
  have b: "map orig (attach_symbols stack_symbols stack_pairs) = map orig stack_pairs"
    by (simp add: attach_symbols_def attach_symbol_orig)
  have c: "\<forall>p \<in> set stack_pairs.
         register (recomp p) \<noteq> ''ebp'' \<longrightarrow> attach_symbol stack_symbols p = p"
    by (simp add: attach_symbol_def)
  have d: "\<forall>p \<in> set stack_pairs.
         register (recomp p) = ''ebp'' \<longrightarrow>
           attach_symbol stack_symbols p
             = p\<lparr>recomp := (recomp p)\<lparr>symbol := map_of stack_symbols (offset (recomp p))\<rparr>\<rparr>"
    by (simp add: attach_symbol_def)
  have e: "\<forall>udiff entries w ps ss.
         reconcile udiff entries = Inr (w, ps, ss) \<longrightarrow>
           (\<forall>p \<in> set ps. register (recomp p) = ''esp'' \<longrightarrow> symbol (recomp p) = None)"
    using reconcile_esp_unannotated by fastforce
  from a b c d e show ?thesis by blast
qed

theorem enrichment_keeps_correspondences_witness:
  "\<lparr>orig = \<lparr>register = ''esp'', offset = 16, symbol = None\<rparr>,
    recomp = \<lparr>register = ''esp'', offset = 16, symbol = None\<rparr>\<rparr>
     \<in> set [\<lparr>orig = \<lparr>register = ''ebp'', offset = - 4, symbol = None\<rparr>,
               recomp = \<lparr>register = ''ebp'', offset = - 4, symbol = None\<rparr>\<rparr>,
              \<lparr>orig = \<lparr>register = ''esp'', offset = 16, symbol = None\<rparr>,
               recomp = \<lparr>register = ''esp'', offset = 16, symbol = None\<rparr>\<rparr>]
   \<and> register (recomp \<lparr>orig = \<lparr>register = ''esp'', offset = 16, symbol = None\<rparr>,
                       recomp = \<lparr>register = ''esp'', offset = 16, symbol = None\<rparr>\<rparr>) \<noteq> ''ebp''
   \<and> attach_symbol [(- 4, \<lparr>name = ''count'', data_type = ''T_INT4''\<rparr>),
                     (16, \<lparr>name = ''arg'', data_type = ''T_INT4''\<rparr>)]
        \<lparr>orig = \<lparr>register = ''esp'', offset = 16, symbol = None\<rparr>,
         recomp = \<lparr>register = ''esp'', offset = 16, symbol = None\<rparr>\<rparr>
       = \<lparr>orig = \<lparr>register = ''esp'', offset = 16, symbol = None\<rparr>,
          recomp = \<lparr>register = ''esp'', offset = 16, symbol = None\<rparr>\<rparr>
   \<and> \<lparr>orig = \<lparr>register = ''ebp'', offset = - 4, symbol = None\<rparr>,
      recomp = \<lparr>register = ''ebp'', offset = - 4, symbol = None\<rparr>\<rparr>
     \<in> set [\<lparr>orig = \<lparr>register = ''ebp'', offset = - 4, symbol = None\<rparr>,
               recomp = \<lparr>register = ''ebp'', offset = - 4, symbol = None\<rparr>\<rparr>,
              \<lparr>orig = \<lparr>register = ''esp'', offset = 16, symbol = None\<rparr>,
               recomp = \<lparr>register = ''esp'', offset = 16, symbol = None\<rparr>\<rparr>]
   \<and> register (recomp \<lparr>orig = \<lparr>register = ''ebp'', offset = - 4, symbol = None\<rparr>,
                       recomp = \<lparr>register = ''ebp'', offset = - 4, symbol = None\<rparr>\<rparr>) = ''ebp''
   \<and> attach_symbol [(- 4, \<lparr>name = ''count'', data_type = ''T_INT4''\<rparr>),
                     (16, \<lparr>name = ''arg'', data_type = ''T_INT4''\<rparr>)]
        \<lparr>orig = \<lparr>register = ''ebp'', offset = - 4, symbol = None\<rparr>,
         recomp = \<lparr>register = ''ebp'', offset = - 4, symbol = None\<rparr>\<rparr>
       = \<lparr>orig = \<lparr>register = ''ebp'', offset = - 4, symbol = None\<rparr>,
          recomp = \<lparr>register = ''ebp'', offset = - 4,
                    symbol = Some \<lparr>name = ''count'', data_type = ''T_INT4''\<rparr>\<rparr>\<rparr>
   \<and> reconcile
        [(''@@ -0x1000,2 +0x2000,2 @@'',
          [\<lparr>blk_both = Some [(''0x1000'', ''mov eax, dword ptr [ebp - 4]'', ''0x2000''),
                             (''0x1004'', ''mov ecx, dword ptr [esp + 0x10]'', ''0x2004'')],
            blk_orig = None, blk_recomp = None\<rparr>])]
        [\<lparr>symbol_type = ''S_BPREL32'', location = ''[FFFFFFFC]'', entry_name = ''count'',
          entry_data_type = ''T_INT4''\<rparr>,
         \<lparr>symbol_type = ''S_BPREL32'', location = ''[00000010]'', entry_name = ''arg'',
          entry_data_type = ''T_INT4''\<rparr>]
      = Inr (\<lparr>structural_mismatches_present = False, error_map_not_bijective = False\<rparr>,
             [\<lparr>orig = \<lparr>register = ''ebp'', offset = - 4, symbol = None\<rparr>,
               recomp = \<lparr>register = ''ebp'', offset = - 4,
                         symbol = Some \<lparr>name = ''count'', data_type = ''T_INT4''\<rparr>\<rparr>\<rparr>,
              \<lparr>orig = \<lparr>register = ''esp'', offset = 16, symbol = None\<rparr>,
               recomp = \<lparr>register = ''esp'', offset = 16, symbol = None\<rparr>\<rparr>],
             [(- 4, \<lparr>name = ''count'', data_type = ''T_INT4''\<rparr>),
              (16, \<lparr>name = ''arg'', data_type = ''T_INT4''\<rparr>)])"
  (is "?in_esp \<and> ?reg_esp \<and> ?same \<and> ?in_ebp \<and> ?reg_ebp \<and> ?annotated \<and> ?run")
proof -
  note frame = enrichment_keeps_correspondences
    [of "[(- 4, \<lparr>name = ''count'', data_type = ''T_INT4''\<rparr>),
          (16, \<lparr>name = ''arg'', data_type = ''T_INT4''\<rparr>)]"
        "[\<lparr>orig = \<lparr>register = ''ebp'', offset = - 4, symbol = None\<rparr>,
           recomp = \<lparr>register = ''ebp'', offset = - 4, symbol = None\<rparr>\<rparr>,
          \<lparr>orig = \<lparr>register = ''esp'', offset = 16, symbol = None\<rparr>,
           recomp = \<lparr>register = ''esp'', offset = 16, symbol = None\<rparr>\<rparr>]"]
  have in_esp: ?in_esp and reg_esp: ?reg_esp and in_ebp: ?in_ebp and reg_ebp: ?reg_ebp
    by simp_all
  from frame in_esp reg_esp have same: ?same by blast
  from frame in_ebp reg_ebp have annotated: ?annotated by fastforce
  have run: ?run by code_simp
  from in_esp reg_esp same in_ebp reg_ebp annotated run show ?thesis by blast
qed

subsection \<open>The classifier and reporter\<close>

lemma find_Some_if_member: "x \<in> set xs \<Longrightarrow> P x \<Longrightarrow> \<exists>y. find P xs = Some y"
  by (cases "find P xs") (auto simp: find_None_iff)

text \<open>
  One round of each loop prints one line and sets at most the flag of the view; neither
  the line nor the decision to set the flag depends on the warnings.
\<close>

lemma by_original_step:
  assumes "find (\<lambda>x. offset (orig x) = k) ps = Some first"
  shows "\<exists>flag line. \<forall>w out.
           by_original_loop ps (k # rest) w out
             = by_original_loop ps rest
                 (if flag then w\<lparr>error_map_not_bijective := True\<rparr> else w) (out @ [line])"
proof -
  let ?recomps = "map recomp (filter (\<lambda>x. sro_eq (orig x) (orig first)) ps)"
  let ?many = "print_non_bijective_match (Str (str_sro (orig first)))
                 (format_list_of_offsets ?recomps)"
  show ?thesis
  proof (cases "\<exists>r. ?recomps = [r]")
    case True
    then obtain r where r: "?recomps = [r]" ..
    let ?one = "print_bijective_match (Str (str_sro (orig first))) (Str (str_sro r))
                  (sro_eq (orig first) r)"
    from assms r have "\<forall>w out. by_original_loop ps (k # rest) w out
                      = by_original_loop ps rest w (out @ [?one])"
      by (simp add: Let_def)
    then show ?thesis by (intro exI [of _ False] exI [of _ ?one]) simp
  next
    case False
    with assms have "\<forall>w out. by_original_loop ps (k # rest) w out
        = by_original_loop ps rest (w\<lparr>error_map_not_bijective := True\<rparr>) (out @ [?many])"
      by (auto simp: Let_def split: list.splits)
    then show ?thesis by (intro exI [of _ True] exI [of _ ?many]) simp
  qed
qed

lemma by_original_loop_result:
  assumes "\<forall>k \<in> set offs. \<exists>x \<in> set ps. offset (orig x) = k"
  shows "\<exists>flag lines. length lines = length offs
           \<and> (\<forall>w out. by_original_loop ps offs w out
                  = Inr (if flag then w\<lparr>error_map_not_bijective := True\<rparr> else w, out @ lines))"
  using assms
proof (induction offs)
  case Nil
  show ?case by (intro exI [of _ False] exI [of _ "[]"]) simp
next
  case (Cons k rest)
  from Cons.prems obtain x where "x \<in> set ps" "offset (orig x) = k" by auto
  from find_Some_if_member [of x ps "\<lambda>x. offset (orig x) = k", OF this]
  obtain first where "find (\<lambda>x. offset (orig x) = k) ps = Some first" by blast
  from by_original_step [OF this, of rest] obtain flag1 line where
    step: "\<And>w out. by_original_loop ps (k # rest) w out
             = by_original_loop ps rest
                 (if flag1 then w\<lparr>error_map_not_bijective := True\<rparr> else w) (out @ [line])"
    by blast
  from Cons.prems have "\<forall>k \<in> set rest. \<exists>x \<in> set ps. offset (orig x) = k" by simp
  from Cons.IH [OF this] obtain flag2 lines where
    len: "length lines = length rest"
    and loop: "\<And>w out. by_original_loop ps rest w out
        = Inr (if flag2 then w\<lparr>error_map_not_bijective := True\<rparr> else w, out @ lines)"
    by blast
  show ?case
    by (intro exI [of _ "flag1 \<or> flag2"] exI [of _ "line # lines"])
       (simp del: by_original_loop.simps add: step loop len)
qed

lemma print_by_original_stack_result:
  "\<exists>flag lines. length lines = card ((\<lambda>x. offset (orig x)) ` set ps)
     \<and> (\<forall>w. print_by_original_stack ps w
            = Inr (if flag then w\<lparr>error_map_not_bijective := True\<rparr> else w,
                   Plain heading_original # lines))"
proof -
  let ?offs = "sort (remdups (map (\<lambda>x. offset (orig x)) ps))"
  have "\<forall>k \<in> set ?offs. \<exists>x \<in> set ps. offset (orig x) = k" by auto
  from by_original_loop_result [OF this]
  obtain flag lines where
    "length lines = length ?offs"
    "\<And>w out. by_original_loop ps ?offs w out
        = Inr (if flag then w\<lparr>error_map_not_bijective := True\<rparr> else w, out @ lines)"
    by blast
  moreover have "length ?offs = card ((\<lambda>x. offset (orig x)) ` set ps)"
    by (simp add: length_remdups_card_conv)
  ultimately show ?thesis
    by (intro exI [of _ flag] exI [of _ lines]) (simp add: print_by_original_stack_def)
qed

lemma by_recomp_step:
  assumes "find (\<lambda>x. offset (recomp x) = k) ps = Some first"
  shows "\<exists>flag line. (\<forall>t. line \<noteq> NotSeen t) \<and> (\<forall>w out.
           by_recomp_loop ps ss (k # rest) w out
             = by_recomp_loop ps ss rest
                 (if flag then w\<lparr>error_map_not_bijective := True\<rparr> else w) (out @ [line]))"
proof -
  let ?origs = "map orig (filter (\<lambda>x. sro_eq (recomp x) (recomp first)) ps)"
  let ?many = "print_non_bijective_match (format_list_of_offsets ?origs)
                 (Str (str_sro (recomp first)))"
  show ?thesis
  proof (cases "\<exists>r. ?origs = [r]")
    case True
    then obtain r where r: "?origs = [r]" ..
    let ?one = "print_bijective_match (Str (str_sro r)) (Str (str_sro (recomp first)))
                  (sro_eq r (recomp first))"
    from assms r have "\<forall>w out. by_recomp_loop ps ss (k # rest) w out
                      = by_recomp_loop ps ss rest w (out @ [?one])"
      by (simp add: Let_def)
    then show ?thesis
      by (intro exI [of _ False] exI [of _ ?one]) (simp add: print_bijective_match_def)
  next
    case False
    with assms have "\<forall>w out. by_recomp_loop ps ss (k # rest) w out
        = by_recomp_loop ps ss rest (w\<lparr>error_map_not_bijective := True\<rparr>) (out @ [?many])"
      by (auto simp: Let_def split: list.splits)
    then show ?thesis
      by (intro exI [of _ True] exI [of _ ?many]) (simp add: print_non_bijective_match_def)
  qed
qed

lemma by_recomp_step_unseen:
  assumes "find (\<lambda>x. offset (recomp x) = k) ps = None" and "map_of ss k = Some s"
  shows "by_recomp_loop ps ss (k # rest) w out
           = by_recomp_loop ps ss rest w
               (out @ [NotSeen (str_sro \<lparr>register = ''ebp'', offset = k, symbol = Some s\<rparr>)])"
  using assms by (simp add: Let_def)

lemma by_recomp_loop_result:
  assumes "\<forall>k \<in> set offs. (\<exists>x \<in> set ps. offset (recomp x) = k) \<or> k \<in> fst ` set ss"
  shows "\<exists>flag lines. length lines = length offs
           \<and> (\<forall>w out. by_recomp_loop ps ss offs w out
                  = Inr (if flag then w\<lparr>error_map_not_bijective := True\<rparr> else w, out @ lines))
           \<and> (\<forall>k \<in> set offs. \<forall>s.
                 (\<forall>x \<in> set ps. offset (recomp x) \<noteq> k) \<and> map_of ss k = Some s \<longrightarrow>
                   NotSeen (str_sro \<lparr>register = ''ebp'', offset = k, symbol = Some s\<rparr>)
                     \<in> set lines)"
  using assms
proof (induction offs)
  case Nil
  show ?case by (intro exI [of _ False] exI [of _ "[]"]) simp
next
  case (Cons k rest)
  from Cons.prems have
    "\<forall>k \<in> set rest. (\<exists>x \<in> set ps. offset (recomp x) = k) \<or> k \<in> fst ` set ss" by simp
  from Cons.IH [OF this] obtain flag2 lines where
    len: "length lines = length rest"
    and loop: "\<And>w out. by_recomp_loop ps ss rest w out
        = Inr (if flag2 then w\<lparr>error_map_not_bijective := True\<rparr> else w, out @ lines)"
    and unseen_rest: "\<forall>k \<in> set rest. \<forall>s.
         (\<forall>x \<in> set ps. offset (recomp x) \<noteq> k) \<and> map_of ss k = Some s \<longrightarrow>
           NotSeen (str_sro \<lparr>register = ''ebp'', offset = k, symbol = Some s\<rparr>) \<in> set lines"
    by blast
  show ?case
  proof (cases "find (\<lambda>x. offset (recomp x) = k) ps")
    case (Some first)
    then have seen: "\<exists>x \<in> set ps. offset (recomp x) = k"
      by (auto simp: find_Some_iff)
    from by_recomp_step [OF Some, of ss rest] obtain flag1 line where
      step: "\<And>w out. by_recomp_loop ps ss (k # rest) w out
               = by_recomp_loop ps ss rest
                   (if flag1 then w\<lparr>error_map_not_bijective := True\<rparr> else w) (out @ [line])"
      by blast
    from seen unseen_rest show ?thesis
      by (intro exI [of _ "flag1 \<or> flag2"] exI [of _ "line # lines"])
         (auto simp del: by_recomp_loop.simps simp: step loop len)
  next
    case None
    then have unseen: "\<forall>x \<in> set ps. offset (recomp x) \<noteq> k"
      by (auto simp: find_None_iff)
    with Cons.prems have "k \<in> fst ` set ss" by auto
    then obtain s where s: "map_of ss k = Some s"
      by (cases "map_of ss k") (auto simp: map_of_eq_None_iff)
    let ?line = "NotSeen (str_sro \<lparr>register = ''ebp'', offset = k, symbol = Some s\<rparr>)"
    from unseen_rest s show ?thesis
      by (intro exI [of _ flag2] exI [of _ "?line # lines"])
         (auto simp del: by_recomp_loop.simps simp: by_recomp_step_unseen [OF None s] loop len)
  qed
qed

lemma print_by_recomp_stack_result:
  "\<exists>flag lines. length lines = card ((\<lambda>x. offset (recomp x)) ` set ps \<union> fst ` set ss)
     \<and> (\<forall>w. print_by_recomp_stack ps ss w
            = Inr (if flag then w\<lparr>error_map_not_bijective := True\<rparr> else w,
                   Plain heading_recomp # lines))
     \<and> (\<forall>k s. (\<forall>x \<in> set ps. offset (recomp x) \<noteq> k) \<and> map_of ss k = Some s \<longrightarrow>
           NotSeen (str_sro \<lparr>register = ''ebp'', offset = k, symbol = Some s\<rparr>) \<in> set lines)"
proof -
  let ?offs = "sort (remdups (map (\<lambda>x. offset (recomp x)) ps @ map fst ss))"
  have "\<forall>k \<in> set ?offs. (\<exists>x \<in> set ps. offset (recomp x) = k) \<or> k \<in> fst ` set ss" by auto
  from by_recomp_loop_result [OF this]
  obtain flag lines where res:
    "length lines = length ?offs"
    "\<And>w out. by_recomp_loop ps ss ?offs w out
        = Inr (if flag then w\<lparr>error_map_not_bijective := True\<rparr> else w, out @ lines)"
    "\<forall>k \<in> set ?offs. \<forall>s.
         (\<forall>x \<in> set ps. offset (recomp x) \<noteq> k) \<and> map_of ss k = Some s \<longrightarrow>
           NotSeen (str_sro \<lparr>register = ''ebp'', offset = k, symbol = Some s\<rparr>) \<in> set lines"
    by blast
  have len: "length ?offs = card ((\<lambda>x. offset (recomp x)) ` set ps \<union> fst ` set ss)"
    by (simp add: length_remdups_card_conv)
  have "k \<in> set ?offs" if "map_of ss k = Some s" for k s
    using that by (auto dest: map_of_SomeD intro: rev_image_eqI)
  with res(3) have "\<forall>k s. (\<forall>x \<in> set ps. offset (recomp x) \<noteq> k) \<and> map_of ss k = Some s \<longrightarrow>
           NotSeen (str_sro \<lparr>register = ''ebp'', offset = k, symbol = Some s\<rparr>) \<in> set lines"
    by blast
  with res(1,2) len show ?thesis
    by (intro exI [of _ flag] exI [of _ lines]) (simp add: print_by_recomp_stack_def)
qed

text \<open>
  When the table of symbols has an entry at an offset that is the offset of no recomp
  side of the set, whatever the register of that side, the view ordered by the recomp
  stack returns normally and prints a line \<^verbatim>\<open>not seen\<close> for the reference
  \<^verbatim>\<open>ebp\<close> with this offset and the symbol of the entry.
\<close>

lemma unseen_symbol_reported:
  assumes "map_of stack_symbols k = Some s"
    and "\<forall>p \<in> set stack_pairs. offset (recomp p) \<noteq> k"
  shows "\<exists>warnings' out.
           print_by_recomp_stack stack_pairs stack_symbols warnings = Inr (warnings', out)
           \<and> NotSeen (str_sro \<lparr>register = ''ebp'', offset = k, symbol = Some s\<rparr>) \<in> set out"
proof -
  from print_by_recomp_stack_result [of stack_pairs stack_symbols] obtain flag lines where
    "\<And>w. print_by_recomp_stack stack_pairs stack_symbols w
            = Inr (if flag then w\<lparr>error_map_not_bijective := True\<rparr> else w,
                   Plain heading_recomp # lines)"
    "\<forall>k s. (\<forall>x \<in> set stack_pairs. offset (recomp x) \<noteq> k) \<and> map_of stack_symbols k = Some s
        \<longrightarrow> NotSeen (str_sro \<lparr>register = ''ebp'', offset = k, symbol = Some s\<rparr>) \<in> set lines"
    by blast
  with assms show ?thesis by simp
qed

text \<open>
  Claim C9. The two views and the footer, run on a set of pairs, a table of symbols and
  warnings, return normally; run again on the same set and table with the warnings the
  first run left, they print the same lines and leave the warnings as they are. The
  first run changes the warnings at most by setting \<open>error_map_not_bijective\<close>.
  The print functions assign to nothing but the two flags: the set and the table are
  only read, which is why the model has them as arguments and not as results.
\<close>

theorem report_idempotent:
  "\<exists>warnings' out.
     report stack_pairs stack_symbols warnings = Inr (warnings', out)
     \<and> report stack_pairs stack_symbols warnings' = Inr (warnings', out)
     \<and> (warnings' = warnings \<or> warnings' = warnings\<lparr>error_map_not_bijective := True\<rparr>)"
proof -
  from print_by_original_stack_result [of stack_pairs] obtain flag1 lines1 where
    v1: "\<And>w. print_by_original_stack stack_pairs w
            = Inr (if flag1 then w\<lparr>error_map_not_bijective := True\<rparr> else w,
                   Plain heading_original # lines1)"
    by blast
  from print_by_recomp_stack_result [of stack_pairs stack_symbols] obtain flag2 lines2 where
    v2: "\<And>w. print_by_recomp_stack stack_pairs stack_symbols w
            = Inr (if flag2 then w\<lparr>error_map_not_bijective := True\<rparr> else w,
                   Plain heading_recomp # lines2)"
    by blast
  let ?w = "if flag1 \<or> flag2 then warnings\<lparr>error_map_not_bijective := True\<rparr> else warnings"
  let ?out = "(Plain heading_original # lines1) @ (Plain heading_recomp # lines2)
                @ print_footer ?w"
  have "report stack_pairs stack_symbols warnings = Inr (?w, ?out)"
    by (simp add: report_def v1 v2)
  moreover have "report stack_pairs stack_symbols ?w = Inr (?w, ?out)"
    by (simp add: report_def v1 v2)
  ultimately show ?thesis by (intro exI [of _ ?w] exI [of _ ?out]) simp
qed

lemma unseen_symbol_reported_example:
  "map_of [(- 16 :: int, \<lparr>name = ''m_flags'', data_type = ''T_INT4''\<rparr>)] (- 16)
     = Some \<lparr>name = ''m_flags'', data_type = ''T_INT4''\<rparr>
   \<and> offset (recomp \<lparr>orig = \<lparr>register = ''ebp'', offset = - 4, symbol = None\<rparr>,
                      recomp = \<lparr>register = ''ebp'', offset = - 4, symbol = None\<rparr>\<rparr>) \<noteq> - 16
   \<and> print_by_recomp_stack
        [\<lparr>orig = \<lparr>register = ''ebp'', offset = - 4, symbol = None\<rparr>,
          recomp = \<lparr>register = ''ebp'', offset = - 4, symbol = None\<rparr>\<rparr>]
        [(- 16, \<lparr>name = ''m_flags'', data_type = ''T_INT4''\<rparr>)]
        \<lparr>structural_mismatches_present = False, error_map_not_bijective = False\<rparr>
      = Inr (\<lparr>structural_mismatches_present = False, error_map_not_bijective = False\<rparr>,
             [Plain heading_recomp,
              NotSeen ''ebp - 0x10  m_flags'',
              Match CHECK_ICON (Str ''ebp - 0x04'') (Str ''ebp - 0x04'')])
   \<and> NotSeen (str_sro \<lparr>register = ''ebp'', offset = - 16,
                        symbol = Some \<lparr>name = ''m_flags'', data_type = ''T_INT4''\<rparr>\<rparr>)
       \<in> set [Plain heading_recomp,
               NotSeen ''ebp - 0x10  m_flags'',
               Match CHECK_ICON (Str ''ebp - 0x04'') (Str ''ebp - 0x04'')]"
  (is "?entry \<and> ?absent \<and> ?run \<and> ?listed")
proof -
  have entry: ?entry and absent: ?absent by simp_all
  have no_pair:
    "\<forall>p \<in> set [\<lparr>orig = \<lparr>register = ''ebp'', offset = - 4, symbol = None\<rparr>,
                  recomp = \<lparr>register = ''ebp'', offset = - 4, symbol = None\<rparr>\<rparr>].
       offset (recomp p) \<noteq> - 16"
    by simp
  have run: ?run by code_simp
  from unseen_symbol_reported [OF entry no_pair,
      of "\<lparr>structural_mismatches_present = False, error_map_not_bijective = False\<rparr>"]
    run
  have ?listed by simp
  with entry absent run show ?thesis by blast
qed

theorem report_idempotent_witness:
  "report
     [\<lparr>orig = \<lparr>register = ''ebp'', offset = - 4, symbol = None\<rparr>,
       recomp = \<lparr>register = ''ebp'', offset = - 4, symbol = None\<rparr>\<rparr>,
      \<lparr>orig = \<lparr>register = ''ebp'', offset = - 4, symbol = None\<rparr>,
       recomp = \<lparr>register = ''ebp'', offset = - 8, symbol = None\<rparr>\<rparr>]
     [(- 16, \<lparr>name = ''m_flags'', data_type = ''T_INT4''\<rparr>)]
     \<lparr>structural_mismatches_present = False, error_map_not_bijective = False\<rparr>
   = Inr (\<lparr>structural_mismatches_present = False, error_map_not_bijective = True\<rparr>,
          [Plain heading_original,
           Match ERROR_ICON (Str ''ebp - 0x04'') (ListStr [''ebp - 0x04'', ''ebp - 0x08'']),
           Plain heading_recomp,
           NotSeen ''ebp - 0x10  m_flags'',
           Match SWAP_ICON (Str ''ebp - 0x04'') (Str ''ebp - 0x08''),
           Match CHECK_ICON (Str ''ebp - 0x04'') (Str ''ebp - 0x04''),
           Legend,
           Plain footer_error])
   \<and> report
     [\<lparr>orig = \<lparr>register = ''ebp'', offset = - 4, symbol = None\<rparr>,
       recomp = \<lparr>register = ''ebp'', offset = - 4, symbol = None\<rparr>\<rparr>,
      \<lparr>orig = \<lparr>register = ''ebp'', offset = - 4, symbol = None\<rparr>,
       recomp = \<lparr>register = ''ebp'', offset = - 8, symbol = None\<rparr>\<rparr>]
     [(- 16, \<lparr>name = ''m_flags'', data_type = ''T_INT4''\<rparr>)]
     \<lparr>structural_mismatches_present = False, error_map_not_bijective = True\<rparr>
   = Inr (\<lparr>structural_mismatches_present = False, error_map_not_bijective = True\<rparr>,
          [Plain heading_original,
           Match ERROR_ICON (Str ''ebp - 0x04'') (ListStr [''ebp - 0x04'', ''ebp - 0x08'']),
           Plain heading_recomp,
           NotSeen ''ebp - 0x10  m_flags'',
           Match SWAP_ICON (Str ''ebp - 0x04'') (Str ''ebp - 0x08''),
           Match CHECK_ICON (Str ''ebp - 0x04'') (Str ''ebp - 0x04''),
           Legend,
           Plain footer_error])"
  (is "?first \<and> ?second")
proof -
  have first: ?first by code_simp
  from report_idempotent
    [of "[\<lparr>orig = \<lparr>register = ''ebp'', offset = - 4, symbol = None\<rparr>,
           recomp = \<lparr>register = ''ebp'', offset = - 4, symbol = None\<rparr>\<rparr>,
          \<lparr>orig = \<lparr>register = ''ebp'', offset = - 4, symbol = None\<rparr>,
           recomp = \<lparr>register = ''ebp'', offset = - 8, symbol = None\<rparr>\<rparr>]"
        "[(- 16, \<lparr>name = ''m_flags'', data_type = ''T_INT4''\<rparr>)]"
        "\<lparr>structural_mismatches_present = False, error_map_not_bijective = False\<rparr>"]
    first
  have ?second by simp
  with first show ?thesis by blast
qed

lemma find_filter_imp:
  "(\<And>x. x \<in> set xs \<Longrightarrow> P x \<Longrightarrow> Q x) \<Longrightarrow> find P (filter Q xs) = find P xs"
  by (induction xs) auto

lemma find_filter_first:
  "find P xs = Some y \<Longrightarrow> Q y \<Longrightarrow> find P (filter Q xs) = Some y"
  by (induction xs) (auto split: if_splits)

lemma filter_filter_imp:
  "(\<And>x. x \<in> set xs \<Longrightarrow> P x \<Longrightarrow> Q x) \<Longrightarrow> filter P (filter Q xs) = filter P xs"
  by (induction xs) auto

lemma image_filter_representative:
  assumes "y \<in> set xs" and "Q y" and "\<And>x. x \<in> set xs \<Longrightarrow> \<not> Q x \<Longrightarrow> f x = f y"
  shows "f ` set (filter Q xs) = f ` set xs"
proof (intro equalityI subsetI)
  fix v assume "v \<in> f ` set (filter Q xs)"
  then show "v \<in> f ` set xs" by auto
next
  fix v assume "v \<in> f ` set xs"
  then obtain x where x: "x \<in> set xs" "v = f x" by auto
  show "v \<in> f ` set (filter Q xs)"
  proof (cases "Q x")
    case True
    with x show ?thesis by auto
  next
    case False
    with x assms(3) have "v = f y" by simp
    with assms(1,2) show ?thesis by auto
  qed
qed

lemma sort_remdups_cong: "set xs = set ys \<Longrightarrow> sort (remdups xs) = sort (remdups ys)"
  by (metis sorted_list_of_set_sort_remdups)

lemma by_original_loop_cong:
  assumes "\<And>j. j \<in> set offs \<Longrightarrow>
             find (\<lambda>x. offset (orig x) = j) ps' = find (\<lambda>x. offset (orig x) = j) ps"
    and "\<And>j f. j \<in> set offs \<Longrightarrow> find (\<lambda>x. offset (orig x) = j) ps = Some f \<Longrightarrow>
             filter (\<lambda>x. sro_eq (orig x) (orig f)) ps' = filter (\<lambda>x. sro_eq (orig x) (orig f)) ps"
  shows "by_original_loop ps' offs w out = by_original_loop ps offs w out"
  using assms
proof (induction offs arbitrary: w out)
  case Nil
  then show ?case by simp
next
  case (Cons j rest)
  have IH: "by_original_loop ps' rest w' out' = by_original_loop ps rest w' out'" for w' out'
    by (rule Cons.IH) (auto intro: Cons.prems)
  have f: "find (\<lambda>x. offset (orig x) = j) ps' = find (\<lambda>x. offset (orig x) = j) ps"
    by (rule Cons.prems(1)) simp
  show ?case
  proof (cases "find (\<lambda>x. offset (orig x) = j) ps")
    case None
    with f show ?thesis by simp
  next
    case (Some first)
    have "filter (\<lambda>x. sro_eq (orig x) (orig first)) ps'
            = filter (\<lambda>x. sro_eq (orig x) (orig first)) ps"
      by (rule Cons.prems(2) [OF _ Some]) simp
    with f Some IH show ?thesis by (simp add: Let_def split: list.splits)
  qed
qed

lemma by_recomp_loop_cong:
  assumes "\<And>j. j \<in> set offs \<Longrightarrow>
             find (\<lambda>x. offset (recomp x) = j) ps' = find (\<lambda>x. offset (recomp x) = j) ps"
    and "\<And>j f. j \<in> set offs \<Longrightarrow> find (\<lambda>x. offset (recomp x) = j) ps = Some f \<Longrightarrow>
             filter (\<lambda>x. sro_eq (recomp x) (recomp f)) ps'
               = filter (\<lambda>x. sro_eq (recomp x) (recomp f)) ps"
  shows "by_recomp_loop ps' ss offs w out = by_recomp_loop ps ss offs w out"
  using assms
proof (induction offs arbitrary: w out)
  case Nil
  then show ?case by simp
next
  case (Cons j rest)
  have IH: "by_recomp_loop ps' ss rest w' out' = by_recomp_loop ps ss rest w' out'" for w' out'
    by (rule Cons.IH) (auto intro: Cons.prems)
  have f: "find (\<lambda>x. offset (recomp x) = j) ps' = find (\<lambda>x. offset (recomp x) = j) ps"
    by (rule Cons.prems(1)) simp
  show ?case
  proof (cases "find (\<lambda>x. offset (recomp x) = j) ps")
    case None
    with f IH show ?thesis by (simp add: Let_def split: option.splits)
  next
    case (Some first)
    have "filter (\<lambda>x. sro_eq (recomp x) (recomp first)) ps'
            = filter (\<lambda>x. sro_eq (recomp x) (recomp first)) ps"
      by (rule Cons.prems(2) [OF _ Some]) simp
    with f Some IH show ?thesis by (simp add: Let_def split: list.splits)
  qed
qed

text \<open>
  Dropping the pairs whose side has the offset of the first pair found for it, and another
  register, changes neither view.
\<close>

lemma other_register_omitted_original:
  assumes "find (\<lambda>x. offset (orig x) = k) ps = Some first"
  shows "print_by_original_stack
           (filter (\<lambda>x. \<not> (offset (orig x) = k \<and> register (orig x) \<noteq> register (orig first))) ps)
           w
         = print_by_original_stack ps w"
proof -
  let ?Q = "\<lambda>x. \<not> (offset (orig x) = k \<and> register (orig x) \<noteq> register (orig first))"
  from assms have first: "first \<in> set ps" "offset (orig first) = k" "?Q first"
    by (auto simp: find_Some_iff)
  have finds: "find (\<lambda>x. offset (orig x) = j) (filter ?Q ps)
                 = find (\<lambda>x. offset (orig x) = j) ps" for j
  proof (cases "j = k")
    case True
    with assms find_filter_first [where Q = ?Q, OF assms first(3)] show ?thesis by simp
  next
    case False
    then show ?thesis by (intro find_filter_imp) auto
  qed
  have filters: "filter (\<lambda>x. sro_eq (orig x) (orig f)) (filter ?Q ps)
                   = filter (\<lambda>x. sro_eq (orig x) (orig f)) ps"
    if "find (\<lambda>x. offset (orig x) = j) ps = Some f" for j f
  proof (cases "j = k")
    case True
    with that assms have "f = first" by simp
    then show ?thesis by (intro filter_filter_imp) (auto simp: sro_eq_def)
  next
    case False
    from that have "offset (orig f) = j" by (auto simp: find_Some_iff)
    with False show ?thesis by (intro filter_filter_imp) (auto simp: sro_eq_def)
  qed
  have "(\<lambda>x. offset (orig x)) ` set (filter ?Q ps) = (\<lambda>x. offset (orig x)) ` set ps"
    using first by (intro image_filter_representative [of first]) auto
  then have "set (map (\<lambda>x. offset (orig x)) (filter ?Q ps)) = set (map (\<lambda>x. offset (orig x)) ps)"
    by simp
  then have "sort (remdups (map (\<lambda>x. offset (orig x)) (filter ?Q ps)))
               = sort (remdups (map (\<lambda>x. offset (orig x)) ps))"
    by (rule sort_remdups_cong)
  then show ?thesis
    unfolding print_by_original_stack_def Let_def
    using by_original_loop_cong [of _ "filter ?Q ps" ps, OF finds filters] by simp
qed

lemma other_register_omitted_recomp:
  assumes "find (\<lambda>x. offset (recomp x) = k) ps = Some first"
  shows "print_by_recomp_stack
           (filter (\<lambda>x. \<not> (offset (recomp x) = k
                            \<and> register (recomp x) \<noteq> register (recomp first))) ps)
           ss w
         = print_by_recomp_stack ps ss w"
proof -
  let ?Q = "\<lambda>x. \<not> (offset (recomp x) = k \<and> register (recomp x) \<noteq> register (recomp first))"
  from assms have first: "first \<in> set ps" "offset (recomp first) = k" "?Q first"
    by (auto simp: find_Some_iff)
  have finds: "find (\<lambda>x. offset (recomp x) = j) (filter ?Q ps)
                 = find (\<lambda>x. offset (recomp x) = j) ps" for j
  proof (cases "j = k")
    case True
    with assms find_filter_first [where Q = ?Q, OF assms first(3)] show ?thesis by simp
  next
    case False
    then show ?thesis by (intro find_filter_imp) auto
  qed
  have filters: "filter (\<lambda>x. sro_eq (recomp x) (recomp f)) (filter ?Q ps)
                   = filter (\<lambda>x. sro_eq (recomp x) (recomp f)) ps"
    if "find (\<lambda>x. offset (recomp x) = j) ps = Some f" for j f
  proof (cases "j = k")
    case True
    with that assms have "f = first" by simp
    then show ?thesis by (intro filter_filter_imp) (auto simp: sro_eq_def)
  next
    case False
    from that have "offset (recomp f) = j" by (auto simp: find_Some_iff)
    with False show ?thesis by (intro filter_filter_imp) (auto simp: sro_eq_def)
  qed
  have "(\<lambda>x. offset (recomp x)) ` set (filter ?Q ps) = (\<lambda>x. offset (recomp x)) ` set ps"
    using first by (intro image_filter_representative [of first]) auto
  then have "set (map (\<lambda>x. offset (recomp x)) (filter ?Q ps) @ map fst ss)
          = set (map (\<lambda>x. offset (recomp x)) ps @ map fst ss)"
    by simp
  then have "sort (remdups (map (\<lambda>x. offset (recomp x)) (filter ?Q ps) @ map fst ss))
               = sort (remdups (map (\<lambda>x. offset (recomp x)) ps @ map fst ss))"
    by (rule sort_remdups_cong)
  then show ?thesis
    unfolding print_by_recomp_stack_def Let_def
    using by_recomp_loop_cong [of _ "filter ?Q ps" ps, OF finds filters] by simp
qed

text \<open>
  Claim C10. Both views enumerate the integer offsets, whatever the register. The view
  ordered by the original stack prints one line for each distinct offset of an original
  side, for the reference of the first pair with this offset in the order of iteration;
  the pairs whose original side has this offset and another register do not enter the
  view (without them it prints the same). The view ordered by the recomp stack does the
  same with the recomp sides and the offsets of the table of symbols. Which of two
  references \<^verbatim>\<open>esp - 4\<close> and \<^verbatim>\<open>ebp - 4\<close> gets the line depends on the order
  of iteration alone: the last four equations print the same set in its two orders.
\<close>

theorem views_enumerate_by_offset:
  "(\<exists>flag lines.
      length lines = card ((\<lambda>x. offset (orig x)) ` set stack_pairs)
      \<and> (\<forall>w. print_by_original_stack stack_pairs w
             = Inr (if flag then w\<lparr>error_map_not_bijective := True\<rparr> else w,
                    Plain heading_original # lines)))
   \<and> (find (\<lambda>x. offset (orig x) = k) stack_pairs = Some first \<longrightarrow>
        print_by_original_stack
          (filter (\<lambda>x. \<not> (offset (orig x) = k
                           \<and> register (orig x) \<noteq> register (orig first))) stack_pairs)
          warnings
        = print_by_original_stack stack_pairs warnings)
   \<and> (\<exists>flag lines.
        length lines
          = card ((\<lambda>x. offset (recomp x)) ` set stack_pairs \<union> fst ` set stack_symbols)
        \<and> (\<forall>w. print_by_recomp_stack stack_pairs stack_symbols w
               = Inr (if flag then w\<lparr>error_map_not_bijective := True\<rparr> else w,
                      Plain heading_recomp # lines)))
   \<and> (find (\<lambda>x. offset (recomp x) = k') stack_pairs = Some first' \<longrightarrow>
        print_by_recomp_stack
          (filter (\<lambda>x. \<not> (offset (recomp x) = k'
                           \<and> register (recomp x) \<noteq> register (recomp first'))) stack_pairs)
          stack_symbols warnings
        = print_by_recomp_stack stack_pairs stack_symbols warnings)
   \<and> print_by_original_stack
        [\<lparr>orig = \<lparr>register = ''esp'', offset = - 4, symbol = None\<rparr>,
          recomp = \<lparr>register = ''esp'', offset = - 4, symbol = None\<rparr>\<rparr>,
         \<lparr>orig = \<lparr>register = ''ebp'', offset = - 4, symbol = None\<rparr>,
          recomp = \<lparr>register = ''ebp'', offset = - 8, symbol = None\<rparr>\<rparr>]
        \<lparr>structural_mismatches_present = False, error_map_not_bijective = False\<rparr>
      = Inr (\<lparr>structural_mismatches_present = False, error_map_not_bijective = False\<rparr>,
             [Plain heading_original,
              Match CHECK_ICON (Str ''esp - 0x04'') (Str ''esp - 0x04'')])
   \<and> print_by_original_stack
        [\<lparr>orig = \<lparr>register = ''ebp'', offset = - 4, symbol = None\<rparr>,
          recomp = \<lparr>register = ''ebp'', offset = - 8, symbol = None\<rparr>\<rparr>,
         \<lparr>orig = \<lparr>register = ''esp'', offset = - 4, symbol = None\<rparr>,
          recomp = \<lparr>register = ''esp'', offset = - 4, symbol = None\<rparr>\<rparr>]
        \<lparr>structural_mismatches_present = False, error_map_not_bijective = False\<rparr>
      = Inr (\<lparr>structural_mismatches_present = False, error_map_not_bijective = False\<rparr>,
             [Plain heading_original,
              Match SWAP_ICON (Str ''ebp - 0x04'') (Str ''ebp - 0x08'')])
   \<and> print_by_recomp_stack
        [\<lparr>orig = \<lparr>register = ''esp'', offset = - 4, symbol = None\<rparr>,
          recomp = \<lparr>register = ''esp'', offset = - 4, symbol = None\<rparr>\<rparr>,
         \<lparr>orig = \<lparr>register = ''ebp'', offset = - 8, symbol = None\<rparr>,
          recomp = \<lparr>register = ''ebp'', offset = - 4, symbol = None\<rparr>\<rparr>]
        []
        \<lparr>structural_mismatches_present = False, error_map_not_bijective = False\<rparr>
      = Inr (\<lparr>structural_mismatches_present = False, error_map_not_bijective = False\<rparr>,
             [Plain heading_recomp,
              Match CHECK_ICON (Str ''esp - 0x04'') (Str ''esp - 0x04'')])
   \<and> print_by_recomp_stack
        [\<lparr>orig = \<lparr>register = ''ebp'', offset = - 8, symbol = None\<rparr>,
          recomp = \<lparr>register = ''ebp'', offset = - 4, symbol = None\<rparr>\<rparr>,
         \<lparr>orig = \<lparr>register = ''esp'', offset = - 4, symbol = None\<rparr>,
          recomp = \<lparr>register = ''esp'', offset = - 4, symbol = None\<rparr>\<rparr>]
        []
        \<lparr>structural_mismatches_present = False, error_map_not_bijective = False\<rparr>
      = Inr (\<lparr>structural_mismatches_present = False, error_map_not_bijective = False\<rparr>,
             [Plain heading_recomp,
              Match SWAP_ICON (Str ''ebp - 0x08'') (Str ''ebp - 0x04'')])"
  (is "?count_o \<and> ?omit_o \<and> ?count_r \<and> ?omit_r \<and> ?o1 \<and> ?o2 \<and> ?r1 \<and> ?r2")
proof -
  have count_o: ?count_o
    using print_by_original_stack_result [of stack_pairs] .
  have omit_o: ?omit_o
    using other_register_omitted_original [of k stack_pairs first warnings] by blast
  have count_r: ?count_r
    using print_by_recomp_stack_result [of stack_pairs stack_symbols] by blast
  have omit_r: ?omit_r
    using other_register_omitted_recomp [of k' stack_pairs first' stack_symbols warnings]
    by blast
  have o1: ?o1 by code_simp
  have o2: ?o2 by code_simp
  have r1: ?r1 by code_simp
  have r2: ?r2 by code_simp
  from count_o omit_o count_r omit_r o1 o2 r1 r2 show ?thesis by blast
qed

theorem views_enumerate_by_offset_witness:
  "find (\<lambda>x. offset (orig x) = - 4)
     [\<lparr>orig = \<lparr>register = ''esp'', offset = - 4, symbol = None\<rparr>,
       recomp = \<lparr>register = ''esp'', offset = - 4, symbol = None\<rparr>\<rparr>,
      \<lparr>orig = \<lparr>register = ''ebp'', offset = - 4, symbol = None\<rparr>,
       recomp = \<lparr>register = ''ebp'', offset = - 4, symbol = None\<rparr>\<rparr>]
     = Some \<lparr>orig = \<lparr>register = ''esp'', offset = - 4, symbol = None\<rparr>,
             recomp = \<lparr>register = ''esp'', offset = - 4, symbol = None\<rparr>\<rparr>
   \<and> print_by_original_stack
        [\<lparr>orig = \<lparr>register = ''esp'', offset = - 4, symbol = None\<rparr>,
          recomp = \<lparr>register = ''esp'', offset = - 4, symbol = None\<rparr>\<rparr>]
        \<lparr>structural_mismatches_present = False, error_map_not_bijective = False\<rparr>
     = print_by_original_stack
        [\<lparr>orig = \<lparr>register = ''esp'', offset = - 4, symbol = None\<rparr>,
          recomp = \<lparr>register = ''esp'', offset = - 4, symbol = None\<rparr>\<rparr>,
         \<lparr>orig = \<lparr>register = ''ebp'', offset = - 4, symbol = None\<rparr>,
          recomp = \<lparr>register = ''ebp'', offset = - 4, symbol = None\<rparr>\<rparr>]
        \<lparr>structural_mismatches_present = False, error_map_not_bijective = False\<rparr>
   \<and> find (\<lambda>x. offset (recomp x) = - 4)
     [\<lparr>orig = \<lparr>register = ''esp'', offset = - 4, symbol = None\<rparr>,
       recomp = \<lparr>register = ''esp'', offset = - 4, symbol = None\<rparr>\<rparr>,
      \<lparr>orig = \<lparr>register = ''ebp'', offset = - 4, symbol = None\<rparr>,
       recomp = \<lparr>register = ''ebp'', offset = - 4, symbol = None\<rparr>\<rparr>]
     = Some \<lparr>orig = \<lparr>register = ''esp'', offset = - 4, symbol = None\<rparr>,
             recomp = \<lparr>register = ''esp'', offset = - 4, symbol = None\<rparr>\<rparr>
   \<and> print_by_recomp_stack
        [\<lparr>orig = \<lparr>register = ''esp'', offset = - 4, symbol = None\<rparr>,
          recomp = \<lparr>register = ''esp'', offset = - 4, symbol = None\<rparr>\<rparr>]
        []
        \<lparr>structural_mismatches_present = False, error_map_not_bijective = False\<rparr>
     = print_by_recomp_stack
        [\<lparr>orig = \<lparr>register = ''esp'', offset = - 4, symbol = None\<rparr>,
          recomp = \<lparr>register = ''esp'', offset = - 4, symbol = None\<rparr>\<rparr>,
         \<lparr>orig = \<lparr>register = ''ebp'', offset = - 4, symbol = None\<rparr>,
          recomp = \<lparr>register = ''ebp'', offset = - 4, symbol = None\<rparr>\<rparr>]
        []
        \<lparr>structural_mismatches_present = False, error_map_not_bijective = False\<rparr>"
  (is "?first_o \<and> ?same_o \<and> ?first_r \<and> ?same_r")
proof -
  let ?esp = "\<lparr>orig = \<lparr>register = ''esp'', offset = - 4, symbol = None\<rparr>,
               recomp = \<lparr>register = ''esp'', offset = - 4, symbol = None\<rparr>\<rparr>"
  let ?pairs = "[?esp,
                 \<lparr>orig = \<lparr>register = ''ebp'', offset = - 4, symbol = None\<rparr>,
                  recomp = \<lparr>register = ''ebp'', offset = - 4, symbol = None\<rparr>\<rparr>]"
  let ?w = "\<lparr>structural_mismatches_present = False, error_map_not_bijective = False\<rparr>"
  note views = views_enumerate_by_offset
    [where ?stack_pairs = ?pairs and ?k = "- 4" and ?first = ?esp and ?warnings = ?w
       and ?stack_symbols = "[]" and ?k' = "- 4" and ?first' = ?esp]
  have first_o: ?first_o and first_r: ?first_r by simp_all
  have kept_o: "filter (\<lambda>x. \<not> (offset (orig x) = - 4
                           \<and> register (orig x) \<noteq> register (orig ?esp))) ?pairs = [?esp]"
    by simp
  have kept_r: "filter (\<lambda>x. \<not> (offset (recomp x) = - 4
                           \<and> register (recomp x) \<noteq> register (recomp ?esp))) ?pairs = [?esp]"
    by simp
  from views first_o have
    "print_by_original_stack
       (filter (\<lambda>x. \<not> (offset (orig x) = - 4
                        \<and> register (orig x) \<noteq> register (orig ?esp))) ?pairs) ?w
     = print_by_original_stack ?pairs ?w"
    by blast
  then have same_o: ?same_o unfolding kept_o .
  from views first_r have
    "print_by_recomp_stack
       (filter (\<lambda>x. \<not> (offset (recomp x) = - 4
                        \<and> register (recomp x) \<noteq> register (recomp ?esp))) ?pairs) [] ?w
     = print_by_recomp_stack ?pairs [] ?w"
    by blast
  then have same_r: ?same_r unfolding kept_r .
  from first_o same_o first_r same_r show ?thesis by blast
qed

lemma extract_ebp_minus_8:
  "extract_stack_offset_from_instruction ''mov eax, [ebp - 0x8]''
     = Inr (Some \<lparr>register = ''ebp'', offset = - 8, symbol = None\<rparr>)"
  by code_simp

lemma str_ebp_minus_8: "str_sro \<lparr>register = ''ebp'', offset = - 8, symbol = None\<rparr> = ''ebp - 0x08''"
  by code_simp

text \<open>
  The counterexample to claim C1 as the specification states it. A block with the key
  \<^verbatim>\<open>"both"\<close> has one instruction text per line, shared by the two sides. For the
  line \<^verbatim>\<open>mov eax, [ebp - 0x8]\<close> the pair has the offset \<open>-8\<close> on both sides and the
  view marks it with the icon of an exact match, not with the icon of a reordered one.
\<close>

theorem aligned_line_exact_counterexample:
  "analyze_diff
     \<lparr>blk_both = Some [(''0x1000'', ''mov eax, [ebp - 0x8]'', ''0x2000'')],
      blk_orig = None, blk_recomp = None\<rparr>
     \<lparr>structural_mismatches_present = False, error_map_not_bijective = False\<rparr>
   = Inr (\<lparr>structural_mismatches_present = False, error_map_not_bijective = False\<rparr>,
          [\<lparr>orig = \<lparr>register = ''ebp'', offset = - 8, symbol = None\<rparr>,
            recomp = \<lparr>register = ''ebp'', offset = - 8, symbol = None\<rparr>\<rparr>])
   \<and> offset (orig \<lparr>orig = \<lparr>register = ''ebp'', offset = - 8, symbol = None\<rparr>,
                    recomp = \<lparr>register = ''ebp'', offset = - 8, symbol = None\<rparr>\<rparr>)
     = offset (recomp \<lparr>orig = \<lparr>register = ''ebp'', offset = - 8, symbol = None\<rparr>,
                      recomp = \<lparr>register = ''ebp'', offset = - 8, symbol = None\<rparr>\<rparr>)
   \<and> print_by_original_stack
        [\<lparr>orig = \<lparr>register = ''ebp'', offset = - 8, symbol = None\<rparr>,
          recomp = \<lparr>register = ''ebp'', offset = - 8, symbol = None\<rparr>\<rparr>]
        \<lparr>structural_mismatches_present = False, error_map_not_bijective = False\<rparr>
     = Inr (\<lparr>structural_mismatches_present = False, error_map_not_bijective = False\<rparr>,
            [Plain heading_original,
             Match CHECK_ICON (Str ''ebp - 0x08'') (Str ''ebp - 0x08'')])
   \<and> CHECK_ICON \<noteq> SWAP_ICON"
  (is "?pairs \<and> ?same \<and> ?view \<and> ?icons")
proof -
  have pairs: ?pairs by code_simp
  have same: ?same by simp
  have view: ?view by code_simp
  have icons: ?icons by simp
  from pairs same view icons show ?thesis by blast
qed

text \<open>
  When the first pair found for an offset has an original side with several recomp
  sides, the view ordered by the original stack sets the flag and lists them all.
\<close>

lemma by_original_step_many:
  assumes "find (\<lambda>x. offset (orig x) = k) ps = Some first"
    and "\<not> (\<exists>r. map recomp (filter (\<lambda>x. sro_eq (orig x) (orig first)) ps) = [r])"
  shows "by_original_loop ps (k # rest) w out
           = by_original_loop ps rest (w\<lparr>error_map_not_bijective := True\<rparr>)
               (out @ [print_non_bijective_match (Str (str_sro (orig first)))
                         (format_list_of_offsets
                            (map recomp (filter (\<lambda>x. sro_eq (orig x) (orig first)) ps)))])"
  using assms by (auto simp: Let_def split: list.splits)

lemma by_original_loop_many:
  assumes "\<forall>j \<in> set offs. \<exists>x \<in> set ps. offset (orig x) = j"
    and "k \<in> set offs"
    and "find (\<lambda>x. offset (orig x) = k) ps = Some first"
    and "\<not> (\<exists>r. map recomp (filter (\<lambda>x. sro_eq (orig x) (orig first)) ps) = [r])"
  shows "\<exists>lines.
           print_non_bijective_match (Str (str_sro (orig first)))
             (format_list_of_offsets
                (map recomp (filter (\<lambda>x. sro_eq (orig x) (orig first)) ps))) \<in> set lines
           \<and> (\<forall>w out. by_original_loop ps offs w out
                  = Inr (w\<lparr>error_map_not_bijective := True\<rparr>, out @ lines))"
  using assms(1,2)
proof (induction offs)
  case Nil
  then show ?case by simp
next
  case (Cons j rest)
  let ?line = "print_non_bijective_match (Str (str_sro (orig first)))
                 (format_list_of_offsets
                    (map recomp (filter (\<lambda>x. sro_eq (orig x) (orig first)) ps)))"
  from Cons.prems have rest: "\<forall>j \<in> set rest. \<exists>x \<in> set ps. offset (orig x) = j" by simp
  show ?case
  proof (cases "j = k")
    case True
    from by_original_loop_result [OF rest] obtain flag lines where
      loop: "\<And>w out. by_original_loop ps rest w out
          = Inr (if flag then w\<lparr>error_map_not_bijective := True\<rparr> else w, out @ lines)"
      by blast
    show ?thesis unfolding True
      by (intro exI [of _ "?line # lines"])
         (simp del: by_original_loop.simps add: by_original_step_many [OF assms(3,4)] loop)
  next
    case False
    with Cons.prems have "k \<in> set rest" by simp
    from Cons.IH [OF rest this] obtain lines where
      mem: "?line \<in> set lines"
      and loop: "\<And>w out. by_original_loop ps rest w out
          = Inr (w\<lparr>error_map_not_bijective := True\<rparr>, out @ lines)"
      by blast
    from Cons.prems obtain x where "x \<in> set ps" "offset (orig x) = j" by auto
    from find_Some_if_member [of x ps "\<lambda>x. offset (orig x) = j", OF this]
    obtain f where "find (\<lambda>x. offset (orig x) = j) ps = Some f" by blast
    from by_original_step [OF this, of rest] obtain flag1 line where
      step: "\<And>w out. by_original_loop ps (j # rest) w out
               = by_original_loop ps rest
                   (if flag1 then w\<lparr>error_map_not_bijective := True\<rparr> else w) (out @ [line])"
      by blast
    from mem show ?thesis
      by (intro exI [of _ "line # lines"])
         (simp del: by_original_loop.simps add: step loop)
  qed
qed

lemma two_candidates_not_single:
  assumes "p \<in> set xs" "q \<in> set xs" "f p \<noteq> f q"
  shows "\<not> (\<exists>r. map f xs = [r])"
proof
  assume "\<exists>r. map f xs = [r]"
  then obtain r where "map f xs = [r]" ..
  then obtain x where "xs = [x]" by (cases xs) auto
  with assms show False by simp
qed

lemma non_bijective_reported_for_first:
  assumes "find (\<lambda>x. offset (orig x) = k) stack_pairs = Some first"
    and "p \<in> set stack_pairs" "sro_eq (orig p) (orig first)"
    and "q \<in> set stack_pairs" "sro_eq (orig q) (orig first)"
    and "\<not> sro_eq (recomp p) (recomp q)"
  shows "\<exists>lines.
           print_by_original_stack stack_pairs warnings
             = Inr (warnings\<lparr>error_map_not_bijective := True\<rparr>, Plain heading_original # lines)
           \<and> print_non_bijective_match (Str (str_sro (orig first)))
               (format_list_of_offsets
                  (map recomp (filter (\<lambda>x. sro_eq (orig x) (orig first)) stack_pairs)))
             \<in> set lines
           \<and> recomp p \<in> set (map recomp (filter (\<lambda>x. sro_eq (orig x) (orig first)) stack_pairs))
           \<and> recomp q \<in> set (map recomp (filter (\<lambda>x. sro_eq (orig x) (orig first)) stack_pairs))"
proof -
  let ?offs = "sort (remdups (map (\<lambda>x. offset (orig x)) stack_pairs))"
  let ?same = "filter (\<lambda>x. sro_eq (orig x) (orig first)) stack_pairs"
  have offs: "\<forall>j \<in> set ?offs. \<exists>x \<in> set stack_pairs. offset (orig x) = j" by auto
  from assms(1) have "first \<in> set stack_pairs" "offset (orig first) = k"
    by (auto simp: find_Some_iff)
  then have k: "k \<in> set ?offs" by force
  from assms(6) have "recomp p \<noteq> recomp q" by (auto simp: sro_eq_def)
  with assms(2-5) have many: "\<not> (\<exists>r. map recomp ?same = [r])"
    by (intro two_candidates_not_single [of p _ q]) auto
  from by_original_loop_many [OF offs k assms(1) many] obtain lines where
    "print_non_bijective_match (Str (str_sro (orig first)))
       (format_list_of_offsets (map recomp ?same)) \<in> set lines"
    "\<And>w out. by_original_loop stack_pairs ?offs w out
        = Inr (w\<lparr>error_map_not_bijective := True\<rparr>, out @ lines)"
    by blast
  with assms(2-5) show ?thesis
    by (intro exI [of _ lines]) (simp add: print_by_original_stack_def)
qed

text \<open>
  Claim C3. The set of the three pairs \<^verbatim>\<open>esp + 8\<close> to \<^verbatim>\<open>esp + 8\<close>,
  \<^verbatim>\<open>ebp + 8\<close> to \<^verbatim>\<open>ebp + 8\<close> and \<^verbatim>\<open>ebp + 8\<close> to \<^verbatim>\<open>ebp + 0xc\<close> maps the
  original reference \<^verbatim>\<open>ebp + 8\<close> to two recomp references. Iterated with the pair of
  \<^verbatim>\<open>esp\<close> first, the view ordered by the original stack prints the single line of
  \<^verbatim>\<open>esp + 8\<close> for the offset 8 and leaves \<open>error_map_not_bijective\<close> unset, and
  so does the whole of \<^verbatim>\<open>compare_function_stacks\<close>, whose footer then has neither
  error nor warning. Iterated with a pair of \<^verbatim>\<open>ebp\<close> first, the same set is reported
  with the flag set and both candidates listed.
\<close>

theorem shared_offset_hides_second_candidate:
  "reconcile
     [(''@@ -0x1000,3 +0x2000,3 @@'',
       [\<lparr>blk_both = None,
         blk_orig = Some [(''0x1000'', ''mov eax, dword ptr [esp + 8]''),
                          (''0x1004'', ''mov ecx, dword ptr [ebp + 8]''),
                          (''0x1007'', ''mov edx, dword ptr [ebp + 8]'')],
         blk_recomp = Some [(''0x2000'', ''mov eax, dword ptr [esp + 8]''),
                            (''0x2004'', ''mov ecx, dword ptr [ebp + 8]''),
                            (''0x2007'', ''mov edx, dword ptr [ebp + 0xc]'')]\<rparr>])] []
   = Inr (\<lparr>structural_mismatches_present = False, error_map_not_bijective = False\<rparr>,
          [\<lparr>orig = \<lparr>register = ''esp'', offset = 8, symbol = None\<rparr>,
            recomp = \<lparr>register = ''esp'', offset = 8, symbol = None\<rparr>\<rparr>,
           \<lparr>orig = \<lparr>register = ''ebp'', offset = 8, symbol = None\<rparr>,
            recomp = \<lparr>register = ''ebp'', offset = 8, symbol = None\<rparr>\<rparr>,
           \<lparr>orig = \<lparr>register = ''ebp'', offset = 8, symbol = None\<rparr>,
            recomp = \<lparr>register = ''ebp'', offset = 12, symbol = None\<rparr>\<rparr>],
          [])
   \<and> print_by_original_stack
        [\<lparr>orig = \<lparr>register = ''esp'', offset = 8, symbol = None\<rparr>,
          recomp = \<lparr>register = ''esp'', offset = 8, symbol = None\<rparr>\<rparr>,
         \<lparr>orig = \<lparr>register = ''ebp'', offset = 8, symbol = None\<rparr>,
          recomp = \<lparr>register = ''ebp'', offset = 8, symbol = None\<rparr>\<rparr>,
         \<lparr>orig = \<lparr>register = ''ebp'', offset = 8, symbol = None\<rparr>,
          recomp = \<lparr>register = ''ebp'', offset = 12, symbol = None\<rparr>\<rparr>]
        \<lparr>structural_mismatches_present = False, error_map_not_bijective = False\<rparr>
     = Inr (\<lparr>structural_mismatches_present = False, error_map_not_bijective = False\<rparr>,
            [Plain heading_original,
             Match CHECK_ICON (Str ''esp + 0x08'') (Str ''esp + 0x08'')])
   \<and> compare_function_stacks
        [(''@@ -0x1000,3 +0x2000,3 @@'',
          [\<lparr>blk_both = None,
            blk_orig = Some [(''0x1000'', ''mov eax, dword ptr [esp + 8]''),
                             (''0x1004'', ''mov ecx, dword ptr [ebp + 8]''),
                             (''0x1007'', ''mov edx, dword ptr [ebp + 8]'')],
            blk_recomp = Some [(''0x2000'', ''mov eax, dword ptr [esp + 8]''),
                               (''0x2004'', ''mov ecx, dword ptr [ebp + 8]''),
                               (''0x2007'', ''mov edx, dword ptr [ebp + 0xc]'')]\<rparr>])] []
     = Inr (\<lparr>structural_mismatches_present = False, error_map_not_bijective = False\<rparr>,
            [Plain heading_original,
             Match CHECK_ICON (Str ''esp + 0x08'') (Str ''esp + 0x08''),
             Plain heading_recomp,
             Match CHECK_ICON (Str ''esp + 0x08'') (Str ''esp + 0x08''),
             Match SWAP_ICON (Str ''ebp + 0x08'') (Str ''ebp + 0x0c''),
             Legend])
   \<and> print_by_original_stack
        [\<lparr>orig = \<lparr>register = ''ebp'', offset = 8, symbol = None\<rparr>,
          recomp = \<lparr>register = ''ebp'', offset = 8, symbol = None\<rparr>\<rparr>,
         \<lparr>orig = \<lparr>register = ''ebp'', offset = 8, symbol = None\<rparr>,
          recomp = \<lparr>register = ''ebp'', offset = 12, symbol = None\<rparr>\<rparr>,
         \<lparr>orig = \<lparr>register = ''esp'', offset = 8, symbol = None\<rparr>,
          recomp = \<lparr>register = ''esp'', offset = 8, symbol = None\<rparr>\<rparr>]
        \<lparr>structural_mismatches_present = False, error_map_not_bijective = False\<rparr>
     = Inr (\<lparr>structural_mismatches_present = False, error_map_not_bijective = True\<rparr>,
            [Plain heading_original,
             Match ERROR_ICON (Str ''ebp + 0x08'') (ListStr [''ebp + 0x08'', ''ebp + 0x0c''])])"
  (is "?set \<and> ?view \<and> ?whole \<and> ?other_order")
proof -
  have set: ?set by code_simp
  have view: ?view by code_simp
  have whole: ?whole by code_simp
  have other_order: ?other_order by code_simp
  from set view whole other_order show ?thesis by blast
qed

subsection \<open>Discarded regions, their siblings and the report\<close>


lemma pair_eq_sym: "pair_eq p q \<Longrightarrow> pair_eq q p"
  by (simp add: pair_eq_def sro_eq_def)























text \<open>
  Claim C6. The function has the single reference \<^verbatim>\<open>esp + 0x10\<close> in its diff and the
  symbol \<^verbatim>\<open>arg\<close> at the offset 16 from \<^verbatim>\<open>ebp\<close>, a slot that is in no pair. The
  view ordered by the recomp stack takes the pair of \<^verbatim>\<open>esp + 0x10\<close> for the offset
  16 and prints its line: the symbol is neither attached (the register is not
  \<^verbatim>\<open>ebp\<close>) nor printed as not seen, and the whole report does not show it. With no
  pair at the offset the same symbol is printed as not seen.
\<close>

theorem esp_offset_hides_unseen_symbol:
  "reconcile
     [(''@@ -0x1000,1 +0x2000,1 @@'',
       [\<lparr>blk_both = Some [(''0x1000'', ''mov eax, dword ptr [esp + 0x10]'', ''0x2000'')],
         blk_orig = None, blk_recomp = None\<rparr>])]
     [\<lparr>symbol_type = ''S_BPREL32'', location = ''[00000010]'', entry_name = ''arg'',
       entry_data_type = ''T_INT4''\<rparr>]
   = Inr (\<lparr>structural_mismatches_present = False, error_map_not_bijective = False\<rparr>,
          [\<lparr>orig = \<lparr>register = ''esp'', offset = 16, symbol = None\<rparr>,
            recomp = \<lparr>register = ''esp'', offset = 16, symbol = None\<rparr>\<rparr>],
          [(16, \<lparr>name = ''arg'', data_type = ''T_INT4''\<rparr>)])
   \<and> print_by_recomp_stack
        [\<lparr>orig = \<lparr>register = ''esp'', offset = 16, symbol = None\<rparr>,
          recomp = \<lparr>register = ''esp'', offset = 16, symbol = None\<rparr>\<rparr>]
        [(16, \<lparr>name = ''arg'', data_type = ''T_INT4''\<rparr>)]
        \<lparr>structural_mismatches_present = False, error_map_not_bijective = False\<rparr>
     = Inr (\<lparr>structural_mismatches_present = False, error_map_not_bijective = False\<rparr>,
            [Plain heading_recomp,
             Match CHECK_ICON (Str ''esp + 0x10'') (Str ''esp + 0x10'')])
   \<and> compare_function_stacks
        [(''@@ -0x1000,1 +0x2000,1 @@'',
          [\<lparr>blk_both = Some [(''0x1000'', ''mov eax, dword ptr [esp + 0x10]'', ''0x2000'')],
            blk_orig = None, blk_recomp = None\<rparr>])]
        [\<lparr>symbol_type = ''S_BPREL32'', location = ''[00000010]'', entry_name = ''arg'',
          entry_data_type = ''T_INT4''\<rparr>]
     = Inr (\<lparr>structural_mismatches_present = False, error_map_not_bijective = False\<rparr>,
            [Plain heading_original,
             Match CHECK_ICON (Str ''esp + 0x10'') (Str ''esp + 0x10''),
             Plain heading_recomp,
             Match CHECK_ICON (Str ''esp + 0x10'') (Str ''esp + 0x10''),
             Legend])
   \<and> print_by_recomp_stack []
        [(16, \<lparr>name = ''arg'', data_type = ''T_INT4''\<rparr>)]
        \<lparr>structural_mismatches_present = False, error_map_not_bijective = False\<rparr>
     = Inr (\<lparr>structural_mismatches_present = False, error_map_not_bijective = False\<rparr>,
            [Plain heading_recomp, NotSeen ''ebp + 0x10  arg''])"
  (is "?handed \<and> ?view \<and> ?whole \<and> ?without_pair")
proof -
  have handed: ?handed by code_simp
  have view: ?view by code_simp
  have whole: ?whole by code_simp
  have without_pair: ?without_pair by code_simp
  from handed view whole without_pair show ?thesis by blast
qed

text \<open>
  Claim C1, as amended. A block with the key \<^verbatim>\<open>"both"\<close> has one instruction text
  per line, for both sides. With the line \<^verbatim>\<open>mov eax, [ebp - 0x8]\<close> it yields exactly
  one pair, whose two sides are \<^verbatim>\<open>ebp - 0x8\<close>, printed with the icon of an exact
  match. With any one line, whatever its text, it yields no pair or one pair with equal
  sides, printed with the icon of an exact match.
\<close>

theorem aligned_line_is_exact:
  "analyze_diff
     \<lparr>blk_both = Some [(orig_addr, ''mov eax, [ebp - 0x8]'', recomp_addr)],
      blk_orig = None, blk_recomp = None\<rparr> warnings
   = Inr (warnings,
          [\<lparr>orig = \<lparr>register = ''ebp'', offset = - 8, symbol = None\<rparr>,
            recomp = \<lparr>register = ''ebp'', offset = - 8, symbol = None\<rparr>\<rparr>])
   \<and> print_by_original_stack
        [\<lparr>orig = \<lparr>register = ''ebp'', offset = - 8, symbol = None\<rparr>,
          recomp = \<lparr>register = ''ebp'', offset = - 8, symbol = None\<rparr>\<rparr>] warnings
     = Inr (warnings,
            [Plain heading_original,
             Match CHECK_ICON (Str ''ebp - 0x08'') (Str ''ebp - 0x08'')])
   \<and> (analyze_diff
        \<lparr>blk_both = Some [(orig_addr, instruction, recomp_addr)],
         blk_orig = None, blk_recomp = None\<rparr> warnings
        = Inr (warnings, [])
      \<or> (\<exists>m. analyze_diff
                \<lparr>blk_both = Some [(orig_addr, instruction, recomp_addr)],
                 blk_orig = None, blk_recomp = None\<rparr> warnings
              = Inr (warnings, [\<lparr>orig = m, recomp = m\<rparr>])
            \<and> print_by_original_stack [\<lparr>orig = m, recomp = m\<rparr>] warnings
              = Inr (warnings,
                     [Plain heading_original,
                      Match CHECK_ICON (Str (str_sro m)) (Str (str_sro m))])))"
  (is "?line \<and> ?exact \<and> ?any_text")
proof -
  have line: ?line
    by (simp add: analyze_diff_def extract_ebp_minus_8 set_add_def copy_def)
  have exact: ?exact
    by (simp add: print_by_original_stack_def sro_eq_def str_ebp_minus_8
          print_bijective_match_def)
  have any_text: ?any_text
  proof -
    obtain r where r: "extract_stack_offset_from_instruction instruction = Inr r"
      using extract_never_raises by blast
    show ?thesis
    proof (cases r)
      case None
      with r show ?thesis by (simp add: analyze_diff_def)
    next
      case (Some m)
      with r have "analyze_diff
          \<lparr>blk_both = Some [(orig_addr, instruction, recomp_addr)],
           blk_orig = None, blk_recomp = None\<rparr> warnings
        = Inr (warnings, [\<lparr>orig = m, recomp = m\<rparr>])"
        by (simp add: analyze_diff_def set_add_def copy_id)
      moreover have "print_by_original_stack [\<lparr>orig = m, recomp = m\<rparr>] warnings
        = Inr (warnings,
               [Plain heading_original,
                Match CHECK_ICON (Str (str_sro m)) (Str (str_sro m))])"
        by (simp add: print_by_original_stack_def sro_eq_def print_bijective_match_def)
      ultimately show ?thesis by blast
    qed
  qed
  from line exact any_text show ?thesis by blast
qed

end
